theory Spec2Isabelle
  imports Complex_Main "HOL-Library.Word"
begin

section \<open>Binary64 values\<close>

text \<open>
  The backend computes in C \<^verbatim>\<open>double\<close>. A value is modelled as a finite number, one of the
  two infinities or NaN. Finite values carry their exact real value and the operations below
  are exact; the sign of zero is not modelled (a zero divisor counts as +0). Rounding to
  binary64 is a function of its own, \<open>rd\<close> below, applied where a result is truncated to an
  integer or summed and compared with a constant: in the quotient that selects a grid interval
  and in the tabulated quadrature weights. The special values follow IEEE 754 and Annex F of
  C99, because the control flow of the backend relies on them: comparisons with NaN are false,
  \<^verbatim>\<open>fmin\<close> skips a NaN argument, and a division by zero yields an infinity.
\<close>

datatype double = Fin real | PInf | NInf | NaN

text \<open>The decimal literal \<^verbatim>\<open>m e-k\<close>, e.g. \<open>dec 9 1\<close> for \<^verbatim>\<open>0.9\<close>.\<close>

definition dec :: "int \<Rightarrow> nat \<Rightarrow> double" where
  "dec m k = Fin (of_int m / 10 ^ k)"

fun dneg :: "double \<Rightarrow> double" where
  "dneg (Fin a) = Fin (- a)"
| "dneg PInf = NInf"
| "dneg NInf = PInf"
| "dneg NaN = NaN"

fun dadd :: "double \<Rightarrow> double \<Rightarrow> double" where
  "dadd (Fin a) (Fin b) = Fin (a + b)"
| "dadd NaN _ = NaN"
| "dadd _ NaN = NaN"
| "dadd PInf NInf = NaN"
| "dadd NInf PInf = NaN"
| "dadd PInf _ = PInf"
| "dadd _ PInf = PInf"
| "dadd NInf _ = NInf"
| "dadd _ NInf = NInf"

definition dsub :: "double \<Rightarrow> double \<Rightarrow> double" where
  "dsub a b = dadd a (dneg b)"

fun dmul :: "double \<Rightarrow> double \<Rightarrow> double" where
  "dmul (Fin a) (Fin b) = Fin (a * b)"
| "dmul NaN _ = NaN"
| "dmul _ NaN = NaN"
| "dmul (Fin a) PInf = (if a = 0 then NaN else if 0 < a then PInf else NInf)"
| "dmul (Fin a) NInf = (if a = 0 then NaN else if 0 < a then NInf else PInf)"
| "dmul PInf (Fin b) = (if b = 0 then NaN else if 0 < b then PInf else NInf)"
| "dmul NInf (Fin b) = (if b = 0 then NaN else if 0 < b then NInf else PInf)"
| "dmul PInf PInf = PInf"
| "dmul PInf NInf = NInf"
| "dmul NInf PInf = NInf"
| "dmul NInf NInf = PInf"

fun ddiv :: "double \<Rightarrow> double \<Rightarrow> double" where
  "ddiv (Fin a) (Fin b) =
     (if b = 0 then (if a = 0 then NaN else if 0 < a then PInf else NInf) else Fin (a / b))"
| "ddiv NaN _ = NaN"
| "ddiv _ NaN = NaN"
| "ddiv (Fin a) _ = Fin 0"
| "ddiv PInf (Fin b) = (if 0 \<le> b then PInf else NInf)"
| "ddiv NInf (Fin b) = (if 0 \<le> b then NInf else PInf)"
| "ddiv _ _ = NaN"

text \<open>The comparisons \<^verbatim>\<open><\<close> and \<^verbatim>\<open><=\<close>; \<^verbatim>\<open>a > b\<close> is \<open>dlt b a\<close>.\<close>

fun dlt :: "double \<Rightarrow> double \<Rightarrow> bool" where
  "dlt (Fin a) (Fin b) = (a < b)"
| "dlt NaN _ = False"
| "dlt _ NaN = False"
| "dlt _ NInf = False"
| "dlt NInf _ = True"
| "dlt PInf _ = False"
| "dlt _ PInf = True"

fun dle :: "double \<Rightarrow> double \<Rightarrow> bool" where
  "dle (Fin a) (Fin b) = (a \<le> b)"
| "dle NaN _ = False"
| "dle _ NaN = False"
| "dle NInf _ = True"
| "dle _ PInf = True"
| "dle _ NInf = False"
| "dle PInf _ = False"

fun dfabs :: "double \<Rightarrow> double" where
  "dfabs (Fin a) = Fin \<bar>a\<bar>"
| "dfabs PInf = PInf"
| "dfabs NInf = PInf"
| "dfabs NaN = NaN"

definition fmin :: "double \<Rightarrow> double \<Rightarrow> double" where
  "fmin a b = (if a = NaN then b else if b = NaN then a else if dlt b a then b else a)"

definition fmax :: "double \<Rightarrow> double \<Rightarrow> double" where
  "fmax a b = (if a = NaN then b else if b = NaN then a else if dlt a b then b else a)"

fun dsqrt :: "double \<Rightarrow> double" where
  "dsqrt (Fin a) = (if a < 0 then NaN else Fin (sqrt a))"
| "dsqrt PInf = PInf"
| "dsqrt NInf = NaN"
| "dsqrt NaN = NaN"

fun dlog :: "double \<Rightarrow> double" where
  "dlog (Fin a) = (if a < 0 then NaN else if a = 0 then NInf else Fin (ln a))"
| "dlog PInf = PInf"
| "dlog NInf = NaN"
| "dlog NaN = NaN"

definition is_int :: "real \<Rightarrow> bool" where
  "is_int b = (of_int \<lfloor>b\<rfloor> = b)"

definition odd_int :: "real \<Rightarrow> bool" where
  "odd_int b = (is_int b \<and> odd \<lfloor>b\<rfloor>)"

text \<open>\<^verbatim>\<open>pow(x, y)\<close> with the special cases of C99 F.9.4.4.\<close>

fun dpow :: "double \<Rightarrow> double \<Rightarrow> double" where
  "dpow (Fin a) (Fin b) =
     (if b = 0 then Fin 1
      else if a = 0 then (if 0 < b then Fin 0 else PInf)
      else if is_int b then Fin (a powi \<lfloor>b\<rfloor>)
      else if 0 < a then Fin (a powr b)
      else NaN)"
| "dpow NaN (Fin b) = (if b = 0 then Fin 1 else NaN)"
| "dpow (Fin a) NaN = (if a = 1 then Fin 1 else NaN)"
| "dpow PInf (Fin b) = (if b = 0 then Fin 1 else if 0 < b then PInf else Fin 0)"
| "dpow NInf (Fin b) =
     (if b = 0 then Fin 1
      else if 0 < b then (if odd_int b then NInf else PInf)
      else Fin 0)"
| "dpow (Fin a) PInf =
     (if \<bar>a\<bar> = 1 then Fin 1 else if \<bar>a\<bar> < 1 then Fin 0 else PInf)"
| "dpow (Fin a) NInf =
     (if \<bar>a\<bar> = 1 then Fin 1 else if \<bar>a\<bar> < 1 then PInf else Fin 0)"
| "dpow PInf PInf = PInf"
| "dpow NInf PInf = PInf"
| "dpow PInf NInf = Fin 0"
| "dpow NInf NInf = Fin 0"
| "dpow _ _ = NaN"

fun dcos :: "double \<Rightarrow> double" where
  "dcos (Fin a) = Fin (cos a)"
| "dcos _ = NaN"

fun dsin :: "double \<Rightarrow> double" where
  "dsin (Fin a) = Fin (sin a)"
| "dsin _ = NaN"

text \<open>\<^verbatim>\<open>atan2(y, x)\<close> with the special cases of C99 F.9.1.4.\<close>

fun datan2 :: "double \<Rightarrow> double \<Rightarrow> double" where
  "datan2 (Fin y) (Fin x) =
     (if 0 < x then Fin (arctan (y / x))
      else if x < 0 then (if 0 \<le> y then Fin (arctan (y / x) + pi) else Fin (arctan (y / x) - pi))
      else if 0 < y then Fin (pi / 2)
      else if y < 0 then Fin (- pi / 2)
      else Fin 0)"
| "datan2 NaN _ = NaN"
| "datan2 _ NaN = NaN"
| "datan2 (Fin y) PInf = Fin 0"
| "datan2 (Fin y) NInf = (if 0 \<le> y then Fin pi else Fin (- pi))"
| "datan2 PInf (Fin x) = Fin (pi / 2)"
| "datan2 NInf (Fin x) = Fin (- pi / 2)"
| "datan2 PInf PInf = Fin (pi / 4)"
| "datan2 NInf PInf = Fin (- pi / 4)"
| "datan2 PInf NInf = Fin (3 * pi / 4)"
| "datan2 NInf NInf = Fin (- 3 * pi / 4)"

text \<open>Conversion of a C \<^verbatim>\<open>int\<close> to \<^verbatim>\<open>double\<close> is exact.\<close>

definition of_c_int :: "int \<Rightarrow> double" where
  "of_c_int n = Fin (of_int n)"

subsection \<open>Rounding to binary64\<close>

text \<open>
  Round to nearest, ties to even: a nonzero \<open>x\<close> with \<open>2^e \<le> |x| < 2^(e+1)\<close> is rounded to a
  multiple of \<open>2^(e-52)\<close> (53 significant bits), with \<open>e\<close> no less than -1022 (below that the
  spacing stays \<open>2^(-1074)\<close>), and a result of magnitude \<open>2^1024\<close> or more is an infinity.
\<close>

definition round_even :: "real \<Rightarrow> int" where
  "round_even x =
     (let f = \<lfloor>x\<rfloor>; r = x - of_int f
      in if r < 1 / 2 then f else if 1 / 2 < r then f + 1 else if even f then f else f + 1)"

definition binade :: "real \<Rightarrow> int" where
  "binade x = max \<lfloor>log 2 \<bar>x\<bar>\<rfloor> (- 1022)"

definition round64 :: "real \<Rightarrow> double" where
  "round64 x =
     (if x = 0 then Fin 0
      else let u = 2 powi (binade x - 52);
               y = of_int (round_even (x / u)) * u
           in if 2 ^ 1024 \<le> \<bar>y\<bar> then (if 0 < x then PInf else NInf) else Fin y)"

fun rd :: "double \<Rightarrow> double" where
  "rd (Fin a) = round64 a"
| "rd PInf = PInf"
| "rd NInf = NInf"
| "rd NaN = NaN"

text \<open>The binary64 constant for the decimal literal \<^verbatim>\<open>m e-k\<close>.\<close>

definition b64 :: "int \<Rightarrow> nat \<Rightarrow> double" where
  "b64 m k = rd (dec m k)"

section \<open>Shared numeric utilities\<close>

type_synonym vec = "double list"

definition norm_2d :: "double \<Rightarrow> double \<Rightarrow> double" where
  "norm_2d x y = dsqrt (dadd (dmul x x) (dmul y y))"

definition norm_3d :: "double \<Rightarrow> double \<Rightarrow> double \<Rightarrow> double" where
  "norm_3d x y z = dsqrt (dadd (dadd (dmul x x) (dmul y y)) (dmul z z))"

section \<open>Particle tracing\<close>

definition TRACING_STEP_MAX :: double where
  "TRACING_STEP_MAX = dec 1 2"

definition TRACING_BLOCK_SIZE :: nat where
  "TRACING_BLOCK_SIZE = 100000"

definition EM :: double where
  "EM = dneg (dec 1758820022723908 16)"

definition B6 :: vec where
  "B6 = [Fin (65 / 432), Fin (- 5 / 16), Fin (13 / 16), Fin (4 / 27), Fin (5 / 144)]"

definition B5 :: vec where
  "B5 = [Fin (- 17 / 12), Fin (27 / 4), Fin (- 27 / 5), Fin (16 / 15)]"

definition B4 :: vec where
  "B4 = [Fin (69 / 128), Fin (- 243 / 128), Fin (135 / 64)]"

definition B3 :: vec where
  "B3 = [Fin (1 / 12), Fin (1 / 4)]"

definition B2 :: vec where
  "B2 = [Fin (2 / 9)]"

definition CH :: vec where
  "CH = [Fin (47 / 450), Fin 0, Fin (12 / 25), Fin (32 / 225), Fin (1 / 30), Fin (6 / 25)]"

definition CT :: vec where
  "CT = [Fin (- 1 / 150), Fin 0, Fin (3 / 100), Fin (- 16 / 75), Fin (- 1 / 20), Fin (6 / 25)]"

text \<open>The table \<^verbatim>\<open>{NULL, B2, B3, B4, B5, B6}\<close> of \<^verbatim>\<open>produce_new_y\<close>.\<close>

definition coefficients :: "nat \<Rightarrow> vec" where
  "coefficients index = [[], B2, B3, B4, B5, B6] ! index"

text \<open>
  \<^verbatim>\<open>produce_new_y\<close> fills row \<open>index\<close> of \<^verbatim>\<open>ys\<close>; \<^verbatim>\<open>produce_new_k\<close> calls the field
  function on that row and fills row \<open>index\<close> of \<^verbatim>\<open>ks\<close>. Both 6x6 scratch arrays are
  lists of rows.
\<close>

definition produce_new_y :: "vec \<Rightarrow> vec list \<Rightarrow> vec list \<Rightarrow> nat \<Rightarrow> vec list" where
  "produce_new_y y ys ks index =
     ys[index := map (\<lambda>i. foldl (\<lambda>acc j. dadd acc (dmul (coefficients index ! j) (ks ! j ! i)))
                               (y ! i) [0..<index]) [0..<6]]"

definition produce_new_k :: "vec list \<Rightarrow> vec list \<Rightarrow> nat \<Rightarrow> double \<Rightarrow> (vec \<Rightarrow> vec) \<Rightarrow> vec list" where
  "produce_new_k ys ks index h ff =
     (let field = ff (ys ! index)
      in ks[index := [dmul h (ys ! index ! 3),
                      dmul h (ys ! index ! 4),
                      dmul h (ys ! index ! 5),
                      dmul (dmul h EM) (field ! 0),
                      dmul (dmul h EM) (field ! 1),
                      dmul (dmul h EM) (field ! 2)]])"

definition zero66 :: "vec list" where
  "zero66 = replicate 6 (replicate 6 (Fin 0))"

text \<open>The six stages of one step: the loop over \<^verbatim>\<open>index\<close>; the result is \<^verbatim>\<open>k\<close>.\<close>

definition rk_stages :: "(vec \<Rightarrow> vec) \<Rightarrow> vec \<Rightarrow> double \<Rightarrow> vec list" where
  "rk_stages ff y h =
     snd (foldl (\<lambda>(ys, ks) index.
                   (let ys' = produce_new_y y ys ks index
                    in (ys', produce_new_k ys' ks index h ff)))
                (zero66, zero66) [0..<6])"

text \<open>The error loop: \<^verbatim>\<open>err += CT[j]*k[j][i]\<close>, then \<^verbatim>\<open>if(fabs(err) > TE) TE = fabs(err)\<close>.\<close>

definition err_component :: "vec list \<Rightarrow> nat \<Rightarrow> double" where
  "err_component k i = foldl (\<lambda>err j. dadd err (dmul (CT ! j) (k ! j ! i))) (Fin 0) [0..<6]"

definition truncation_error :: "vec list \<Rightarrow> double" where
  "truncation_error k =
     foldl (\<lambda>TE i. if dlt TE (dfabs (err_component k i)) then dfabs (err_component k i) else TE)
           (Fin 0) [0..<6]"

text \<open>The accepted state: \<^verbatim>\<open>y[i] += CH[0]*k[0][i] + ... + CH[5]*k[5][i]\<close>.\<close>

definition advance :: "vec \<Rightarrow> vec list \<Rightarrow> vec" where
  "advance y k =
     map (\<lambda>i. dadd (y ! i)
            (dadd (dadd (dadd (dadd (dadd (dmul (CH ! 0) (k ! 0 ! i)) (dmul (CH ! 1) (k ! 1 ! i)))
                                    (dmul (CH ! 2) (k ! 2 ! i)))
                              (dmul (CH ! 3) (k ! 3 ! i)))
                        (dmul (CH ! 4) (k ! 4 ! i)))
                  (dmul (CH ! 5) (k ! 5 ! i))))
         [0..<6]"

text \<open>\<^verbatim>\<open>h = fmin(0.9 * h * pow(atol / TE, 0.2), hmax)\<close>\<close>

definition next_h :: "double \<Rightarrow> double \<Rightarrow> double \<Rightarrow> double \<Rightarrow> double" where
  "next_h h atol TE hmax = fmin (dmul (dmul (dec 9 1) h) (dpow (ddiv atol TE) (dec 2 1))) hmax"

text \<open>
  The local variables of \<^verbatim>\<open>trace_particle\<close> and the two output arrays. \<^verbatim>\<open>pos_array\<close> is
  the flat array the caller passes: \<^verbatim>\<open>positions[n][i]\<close> is \<^verbatim>\<open>pos_array[6*n + i]\<close>.
\<close>

record tracer =
  st_y :: vec
  st_h :: double
  st_N :: nat
  st_times :: "nat \<Rightarrow> double"
  st_pos :: "nat \<Rightarrow> double"

definition row6 :: "(nat \<Rightarrow> double) \<Rightarrow> nat \<Rightarrow> vec" where
  "row6 pos n = map (\<lambda>i. pos (6 * n + i)) [0..<6]"

definition store_row6 :: "(nat \<Rightarrow> double) \<Rightarrow> nat \<Rightarrow> vec \<Rightarrow> (nat \<Rightarrow> double)" where
  "store_row6 pos n y = foldl (\<lambda>p i. p(6 * n + i := y ! i)) pos [0..<6]"

definition in_bounds :: "vec list \<Rightarrow> vec \<Rightarrow> bool" where
  "in_bounds bounds y =
     (dle (bounds ! 0 ! 0) (y ! 0) \<and> dle (y ! 0) (bounds ! 0 ! 1) \<and>
      dle (bounds ! 1 ! 0) (y ! 1) \<and> dle (y ! 1) (bounds ! 1 ! 1) \<and>
      dle (bounds ! 2 ! 0) (y ! 2) \<and> dle (y ! 2) (bounds ! 2 ! 1))"

text \<open>One pass through the body of the \<^verbatim>\<open>while\<close> loop ends in \<^verbatim>\<open>return N\<close> or goes on.\<close>

datatype 'a ctl = Return 'a | Continue 'a

definition accept :: "tracer \<Rightarrow> vec list \<Rightarrow> tracer" where
  "accept s k =
     (let y' = advance (st_y s) k
      in s\<lparr>st_y := y',
           st_pos := store_row6 (st_pos s) (st_N s) y',
           st_times := (st_times s)(st_N s := dadd (st_times s (st_N s - 1)) (st_h s)),
           st_N := st_N s + 1\<rparr>)"

definition trace_body :: "(vec \<Rightarrow> vec) \<Rightarrow> double \<Rightarrow> double \<Rightarrow> tracer \<Rightarrow> tracer ctl" where
  "trace_body field atol hmax s =
     (let k = rk_stages field (st_y s) (st_h s);
          TE = truncation_error k
      in if dle TE atol
         then (let s' = accept s k
               in if st_N s' = TRACING_BLOCK_SIZE then Return s'
                  else Continue (s'\<lparr>st_h := next_h (st_h s) atol TE hmax\<rparr>))
         else Continue (s\<lparr>st_h := next_h (st_h s) atol TE hmax\<rparr>))"

text \<open>
  The \<^verbatim>\<open>while\<close> loop may reject steps forever, so it runs on fuel: \<open>None\<close> means that the
  loop is still running after \<open>fuel\<close> passes.
\<close>

fun trace_loop ::
  "nat \<Rightarrow> (vec \<Rightarrow> vec) \<Rightarrow> vec list \<Rightarrow> double \<Rightarrow> double \<Rightarrow> tracer \<Rightarrow> tracer option" where
  "trace_loop 0 field bounds atol hmax s = None"
| "trace_loop (Suc fuel) field bounds atol hmax s =
     (if in_bounds bounds (st_y s)
      then (case trace_body field atol hmax s of
              Return s' \<Rightarrow> Some s'
            | Continue s' \<Rightarrow> trace_loop fuel field bounds atol hmax s')
      else Some s)"

definition trace_init :: "(nat \<Rightarrow> double) \<Rightarrow> (nat \<Rightarrow> double) \<Rightarrow> tracer" where
  "trace_init times_array pos_array =
     (let y = row6 pos_array 0;
          V = norm_3d (y ! 3) (y ! 4) (y ! 5);
          hmax = ddiv TRACING_STEP_MAX V
      in \<lparr>st_y = y, st_h = hmax, st_N = 1, st_times = times_array, st_pos = pos_array\<rparr>)"

text \<open>The call returns \<^verbatim>\<open>N\<close>; the two arrays are returned with it.\<close>

definition trace_particle ::
  "nat \<Rightarrow> (nat \<Rightarrow> double) \<Rightarrow> (nat \<Rightarrow> double) \<Rightarrow> (vec \<Rightarrow> vec) \<Rightarrow> vec list \<Rightarrow> double
     \<Rightarrow> (nat \<times> (nat \<Rightarrow> double) \<times> (nat \<Rightarrow> double)) option" where
  "trace_particle fuel times_array pos_array field bounds atol =
     (let s0 = trace_init times_array pos_array
      in map_option (\<lambda>s. (st_N s, st_times s, st_pos s))
           (trace_loop fuel field bounds atol (st_h s0) s0))"

section \<open>Abnormal termination\<close>

text \<open>
  \<^verbatim>\<open>exit(1)\<close> and a failed \<^verbatim>\<open>assert\<close> end the process; an index outside its array and a
  conversion to \<^verbatim>\<open>int\<close> of a value that \<^verbatim>\<open>int\<close> cannot hold are undefined behaviour.
  A function that can end in one of these returns \<open>Inl\<close> of the fault.
\<close>

datatype fault = Exit1 | AssertFailed | Undefined

definition fault_bind :: "fault + 'a \<Rightarrow> ('a \<Rightarrow> fault + 'b) \<Rightarrow> fault + 'b" where
  "fault_bind m f = (case m of Inl e \<Rightarrow> Inl e | Inr v \<Rightarrow> f v)"

text \<open>A loop whose body may end the process: the first fault ends the loop.\<close>

fun for_each :: "'i list \<Rightarrow> ('i \<Rightarrow> 's \<Rightarrow> fault + 's) \<Rightarrow> 's \<Rightarrow> fault + 's" where
  "for_each [] body s = Inr s"
| "for_each (i # is) body s = fault_bind (body i s) (for_each is body)"

text \<open>The cast \<^verbatim>\<open>(int) x\<close> truncates toward zero; \<^verbatim>\<open>int\<close> has 32 bits.\<close>

definition INT_MAX :: int where
  "INT_MAX = 2147483647"

fun to_c_int :: "double \<Rightarrow> fault + int" where
  "to_c_int (Fin a) =
     (let t = (if 0 \<le> a then \<lfloor>a\<rfloor> else \<lceil>a\<rceil>)
      in if - INT_MAX - 1 \<le> t \<and> t \<le> INT_MAX then Inr t else Inl Undefined)"
| "to_c_int _ = Inl Undefined"

text \<open>Arrays passed by pointer are flat: the element types are the casts of the source.\<close>

type_synonym darray = "nat \<Rightarrow> double"

section \<open>Elliptic integrals\<close>

definition ellipk_A :: vec where
  "ellipk_A = [dlog (Fin 4),
               dec 965736020516771 16,
               dec 308909633861795 16,
               dec 152618320622534 16,
               dec 125565693543211 16,
               dec 168695685967517 16,
               dec 109423810688623 16,
               dec 140704915496101 17]"

definition ellipk_B :: vec where
  "ellipk_B = [ddiv (Fin 1) (Fin 2),
               dec 124999998585309 15,
               dec 703114105853296 16,
               dec 487379510945218 16,
               dec 357218443007327 16,
               dec 209857677336790 16,
               dec 581807961871996 17,
               dec 342805719229748 18]"

definition ellipk_singularity :: "double \<Rightarrow> double" where
  "ellipk_singularity k =
     (let eta = dsub (Fin 1) k;
          L = dlog (ddiv (Fin 1) eta)
      in foldl (\<lambda>sum i. dadd sum (dmul (dadd (ellipk_A ! i) (dmul L (ellipk_B ! i)))
                                       (dpow eta (of_c_int (int i)))))
               (Fin 0) [0..<8])"

definition ellipk :: "double \<Rightarrow> double" where
  "ellipk k =
     (if dlt (of_c_int (- 1)) k then ellipk_singularity k
      else ddiv (ellipk_singularity (dsub (Fin 1) (ddiv (Fin 1) (dsub (Fin 1) k))))
                (dsqrt (dsub (Fin 1) k)))"

definition ellipe_A :: vec where
  "ellipe_A = [Fin 1,
               dec 443147193467733 15,
               dec 568115681053803 16,
               dec 221862206993846 16,
               dec 156847700239786 16,
               dec 192284389022977 16,
               dec 121819481486695 16,
               dec 155618744745296 17]"

definition ellipe_B :: vec where
  "ellipe_B = [Fin 0,
               dec 249999998448655 15,
               dec 937488062098189 16,
               dec 584950297066166 16,
               dec 409074821593164 16,
               dec 235091602564984 16,
               dec 645682247315060 17,
               dec 378886487349367 18]"

definition ellipe_01 :: "double \<Rightarrow> double" where
  "ellipe_01 k =
     (let eta = dsub (Fin 1) k;
          L = dlog (ddiv (Fin 1) eta)
      in foldl (\<lambda>sum i. dadd sum (dmul (dadd (ellipe_A ! i) (dmul L (ellipe_B ! i)))
                                       (dpow eta (of_c_int (int i)))))
               (Fin 0) [0..<8])"

definition ellipe :: "double \<Rightarrow> double" where
  "ellipe k =
     (if dle (Fin 0) k \<and> dle k (Fin 1) then ellipe_01 k
      else dmul (ellipe_01 (ddiv k (dsub k (Fin 1)))) (dsqrt (dsub (Fin 1) k)))"

section \<open>Quadrature tables\<close>

definition N_TRIANGLE_QUAD :: nat where
  "N_TRIANGLE_QUAD = 9"

definition QUAD_B1 :: vec where
  "QUAD_B1 = [dec 124949503233232 15, dec 437525248383384 15, dec 437525248383384 15,
              dec 797112651860071 15, dec 797112651860071 15, dec 165409927389841 15,
              dec 165409927389841 15, dec 37477420750088 15, dec 37477420750088 15]"

definition QUAD_B2 :: vec where
  "QUAD_B2 = [dec 437525248383384 15, dec 124949503233232 15, dec 437525248383384 15,
              dec 165409927389841 15, dec 37477420750088 15, dec 797112651860071 15,
              dec 37477420750088 15, dec 797112651860071 15, dec 165409927389841 15]"

text \<open>
  The two tables of weights are held as the binary64 constants of their literals: their sums
  are compared with 2 and 1.
\<close>

definition QUAD_WEIGHTS :: vec where
  "QUAD_WEIGHTS = [b64 205950504760887 15, b64 205950504760887 15, b64 205950504760887 15,
                   b64 63691414286223 15, b64 63691414286223 15, b64 63691414286223 15,
                   b64 63691414286223 15, b64 63691414286223 15, b64 63691414286223 15]"

definition N_QUAD_2D :: nat where
  "N_QUAD_2D = 8"

definition GAUSS_QUAD_POINTS :: vec where
  "GAUSS_QUAD_POINTS =
     [dneg (dec 1834346424956498 16), dec 1834346424956498 16,
      dneg (dec 5255324099163290 16), dec 5255324099163290 16,
      dneg (dec 7966664774136267 16), dec 7966664774136267 16,
      dneg (dec 9602898564975363 16), dec 9602898564975363 16]"

definition GAUSS_QUAD_WEIGHTS :: vec where
  "GAUSS_QUAD_WEIGHTS =
     [b64 3626837833783620 16, b64 3626837833783620 16,
      b64 3137066458778873 16, b64 3137066458778873 16,
      b64 2223810344533745 16, b64 2223810344533745 16,
      b64 1012285362903763 16, b64 1012285362903763 16]"

definition N_LOG_QUAD_2D :: nat where
  "N_LOG_QUAD_2D = 7"

definition GAUSS_LOG_QUAD_POINTS :: vec where
  "GAUSS_LOG_QUAD_POINTS =
     [dec 175965211846577428056264284949 32,
      dec 244696507125133674276453373497 31,
      dec 106748056858788954180259781083 30,
      dec 275807641295917383077859512057 30,
      dec 517855142151833716158668961982 30,
      dec 771815485362384900274646869494 30,
      dec 952841340581090558994306588503 30]"

definition GAUSS_LOG_QUAD_WEIGHTS :: vec where
  "GAUSS_LOG_QUAD_WEIGHTS =
     [dec 663266631902570511783904989051 32,
      dec 457997079784753341255767348120 31,
      dec 123840208071318194550489564922 30,
      dec 212101926023811930107914875456 30,
      dec 261390645672007725646580606859 30,
      dec 231636180290909384318815526104 30,
      dec 118598665644451726132783641957 30]"

definition M_PI :: double where
  "M_PI = dec 314159265358979323846 20"

definition MIN_DISTANCE_AXIS :: double where
  "MIN_DISTANCE_AXIS = dec 1 10"

section \<open>Radial ring potential and its axial derivatives\<close>

definition length_2d :: "double \<Rightarrow> double \<Rightarrow> double \<Rightarrow> double \<Rightarrow> double" where
  \<comment> \<open>\<^verbatim>\<open>length_2d(v1, v2)\<close> on \<^verbatim>\<open>v1[0], v1[1], v2[0], v2[1]\<close>\<close>
  "length_2d v1x v1y v2x v2y = norm_2d (dsub v2x v1x) (dsub v2y v1y)"

definition potential_radial_ring :: "double \<Rightarrow> double \<Rightarrow> double \<Rightarrow> double \<Rightarrow> double" where
  "potential_radial_ring r_0 z_0 r z =
     (let rz2 = dadd (dpow (dadd r r_0) (Fin 2)) (dpow (dsub z z_0) (Fin 2));
          t = ddiv (dmul (dmul (Fin 4) r) r_0) rz2
      in ddiv (dmul (ellipk t) r) (dsqrt rz2))"

text \<open>
  The segment table \<^verbatim>\<open>lines[j][a][b]\<close> is \<^verbatim>\<open>lines_p[6*j + 3*a + b]\<close>; a sample point on
  segment \<open>j\<close> at Gauss node \<open>k\<close> is \<^verbatim>\<open>v1[c] + length_factor*(v2[c] - v1[c])\<close>.
\<close>

definition vert :: "darray \<Rightarrow> nat \<Rightarrow> nat \<Rightarrow> nat \<Rightarrow> double" where
  "vert lines_p j a b = lines_p (6 * j + 3 * a + b)"

definition length_factor :: "nat \<Rightarrow> double" where
  "length_factor k = dadd (ddiv (GAUSS_QUAD_POINTS ! k) (Fin 2)) (ddiv (Fin 1) (Fin 2))"

definition sample :: "darray \<Rightarrow> nat \<Rightarrow> nat \<Rightarrow> nat \<Rightarrow> double" where
  "sample lines_p j k c =
     dadd (vert lines_p j 0 c)
          (dmul (length_factor k) (dsub (vert lines_p j 1 c) (vert lines_p j 0 c)))"

definition segment_length :: "darray \<Rightarrow> nat \<Rightarrow> double" where
  "segment_length lines_p j =
     length_2d (vert lines_p j 0 0) (vert lines_p j 0 1) (vert lines_p j 1 0) (vert lines_p j 1 1)"

definition DERIV_2D_MAX :: nat where
  "DERIV_2D_MAX = 9"

text \<open>
  The array \<^verbatim>\<open>D[9]\<close> of one line element: \<^verbatim>\<open>D[0]\<close>, \<^verbatim>\<open>D[1]\<close>, then the loop
  \<^verbatim>\<open>for(n = 1; n+1 < DERIV_2D_MAX; n++)\<close>; \<open>dz\<close> is \<^verbatim>\<open>z0-z\<close>.
\<close>

definition ring_step :: "double \<Rightarrow> double \<Rightarrow> vec \<Rightarrow> nat \<Rightarrow> vec" where
  "ring_step dz R D n =
     D[n + 1 := dmul (ddiv (dneg (Fin 1)) (dpow R (Fin 2)))
                     (dadd (dmul (dmul (of_c_int (2 * int n + 1)) dz) (D ! n))
                           (dmul (dpow (of_c_int (int n)) (Fin 2)) (D ! (n - 1))))]"

definition ring_D :: "double \<Rightarrow> double \<Rightarrow> vec" where
  "ring_D dz R =
     foldl (ring_step dz R)
           ((replicate 9 (Fin 0))[0 := ddiv (Fin 1) R, 1 := ddiv (dneg dz) (dpow R (Fin 3))])
           [1..<DERIV_2D_MAX - 1]"

text \<open>
  The body of the triple loop for target \<open>i\<close>, segment \<open>j\<close> and node \<open>k\<close>;
  \<^verbatim>\<open>derivs[i][l]\<close> is \<^verbatim>\<open>derivs_p[9*i + l]\<close> and \<^verbatim>\<open>charges[j][k]\<close> is \<^verbatim>\<open>charges_p[8*j + k]\<close>.
\<close>

definition ring_term :: "darray \<Rightarrow> darray \<Rightarrow> darray \<Rightarrow> nat \<Rightarrow> nat \<Rightarrow> nat \<Rightarrow> nat \<Rightarrow> double" where
  "ring_term lines_p charges_p z i j k l =
     (let z0 = z i;
          r = sample lines_p j k 0;
          zs = sample lines_p j k 1;
          weight = ddiv (dmul (GAUSS_QUAD_WEIGHTS ! k) (segment_length lines_p j)) (Fin 2);
          R = norm_2d (dsub z0 zs) r;
          D = ring_D (dsub z0 zs) R
      in dmul (dmul (ddiv (dmul (dmul weight M_PI) r) (Fin 2)) (charges_p (N_QUAD_2D * j + k)))
              (D ! l))"

definition axial_body :: "darray \<Rightarrow> darray \<Rightarrow> darray \<Rightarrow> nat \<Rightarrow> nat \<Rightarrow> nat \<Rightarrow> darray \<Rightarrow> darray" where
  "axial_body lines_p charges_p z i j k derivs_p =
     foldl (\<lambda>d l. d(9 * i + l := dadd (d (9 * i + l)) (ring_term lines_p charges_p z i j k l)))
           derivs_p [0..<9]"

definition axial_derivatives_radial_ring ::
  "darray \<Rightarrow> darray \<Rightarrow> darray \<Rightarrow> nat \<Rightarrow> darray \<Rightarrow> nat \<Rightarrow> darray" where
  "axial_derivatives_radial_ring derivs_p lines_p charges_p N_lines z N_z =
     foldl (\<lambda>d i. foldl (\<lambda>d j. foldl (\<lambda>d k. axial_body lines_p charges_p z i j k d)
                                      d [0..<N_QUAD_2D])
                         d [0..<N_lines])
           derivs_p [0..<N_z]"

section \<open>Expansion-based evaluators\<close>

text \<open>
  \<^verbatim>\<open>index = (int) ((z-z0)/dz)\<close> with \<^verbatim>\<open>dz = z_inter[1] - z_inter[0]\<close>, used as an index
  into tables of \<open>N_z\<close> entries. The two differences and the quotient are rounded to binary64
  before the cast truncates: the interval chosen is that of the rounded quotient.
\<close>

definition z_index :: "darray \<Rightarrow> nat \<Rightarrow> double \<Rightarrow> fault + nat" where
  "z_index z_inter N_z z =
     (let dz = rd (dsub (z_inter 1) (z_inter 0))
      in fault_bind (to_c_int (rd (ddiv (rd (dsub z (z_inter 0))) dz)))
           (\<lambda>index. if 0 \<le> index \<and> index < int N_z then Inr (nat index) else Inl Undefined))"

text \<open>The guard \<^verbatim>\<open>!(z0 < z && z < zlast)\<close>.\<close>

definition out_of_range :: "darray \<Rightarrow> nat \<Rightarrow> double \<Rightarrow> bool" where
  "out_of_range z_inter N_z z = (\<not> (dlt (z_inter 0) z \<and> dlt z (z_inter (N_z - 1))))"

text \<open>
  \<^verbatim>\<open>coeff[index][i][c]\<close> is \<^verbatim>\<open>coeff_p[54*index + 6*i + c]\<close>; \<^verbatim>\<open>derivs[i]\<close> is the quintic
  in \<^verbatim>\<open>diffz\<close>.
\<close>

definition quintic :: "darray \<Rightarrow> nat \<Rightarrow> double \<Rightarrow> nat \<Rightarrow> double" where
  "quintic coeff_p index diffz i =
     (let C = (\<lambda>c. coeff_p (54 * index + 6 * i + c))
      in dadd (dadd (dadd (dadd (dadd (dmul (C 0) (dpow diffz (Fin 5)))
                                      (dmul (C 1) (dpow diffz (Fin 4))))
                                (dmul (C 2) (dpow diffz (Fin 3))))
                          (dmul (C 3) (dpow diffz (Fin 2))))
                    (dmul (C 4) diffz))
              (C 5))"

definition potential_radial_derivs :: "vec \<Rightarrow> darray \<Rightarrow> darray \<Rightarrow> nat \<Rightarrow> fault + double" where
  "potential_radial_derivs point z_inter coeff_p N_z =
     (let r = point ! 0; z = point ! 1
      in if N_z = 0 then Inl Undefined
         else if out_of_range z_inter N_z z then Inr (Fin 0)
         else fault_bind (z_index z_inter N_z z)
           (\<lambda>index.
              let diffz = dsub z (z_inter index);
                  derivs = map (quintic coeff_p index diffz) [0..<DERIV_2D_MAX]
              in Inr (dadd (dsub (dadd (dsub (derivs ! 0) (dmul (dpow r (Fin 2)) (derivs ! 2)))
                                       (dmul (ddiv (dpow r (Fin 4)) (Fin 64)) (derivs ! 4)))
                                 (dmul (ddiv (dpow r (Fin 6)) (Fin 2304)) (derivs ! 6)))
                           (dmul (ddiv (dpow r (Fin 8)) (Fin 147456)) (derivs ! 8)))))"

definition field_radial_derivs :: "vec \<Rightarrow> darray \<Rightarrow> darray \<Rightarrow> nat \<Rightarrow> fault + vec" where
  "field_radial_derivs point z_inter coeff_p N_z =
     (let r = point ! 0; z = point ! 1
      in if N_z = 0 then Inl Undefined
         else if out_of_range z_inter N_z z then Inr [Fin 0, Fin 0, Fin 0]
         else fault_bind (z_index z_inter N_z z)
           (\<lambda>index.
              let diffz = dsub z (z_inter index);
                  derivs = map (quintic coeff_p index diffz) [0..<DERIV_2D_MAX]
              in Inr [dmul (ddiv r (Fin 2))
                        (dsub (dadd (dsub (derivs ! 2)
                                          (dmul (ddiv (dpow r (Fin 2)) (Fin 8)) (derivs ! 4)))
                                    (dmul (ddiv (dpow r (Fin 4)) (Fin 192)) (derivs ! 6)))
                              (dmul (ddiv (dpow r (Fin 6)) (Fin 9216)) (derivs ! 8))),
                      dadd (dsub (dadd (dneg (derivs ! 1))
                                       (dmul (ddiv (dpow r (Fin 2)) (Fin 4)) (derivs ! 3)))
                                 (dmul (ddiv (dpow r (Fin 4)) (Fin 64)) (derivs ! 5)))
                           (dmul (ddiv (dpow r (Fin 6)) (Fin 2304)) (derivs ! 7)),
                      Fin 0]))"

definition NU_MAX :: nat where
  "NU_MAX = 4"

definition M_MAX :: nat where
  "M_MAX = 8"

text \<open>
  \<^verbatim>\<open>coeffs[index][part][nu][m][c]\<close> is \<^verbatim>\<open>coeffs_p[256*index + 128*part + 32*nu + 4*m + c]\<close>.
  The four scratch tables \<^verbatim>\<open>A\<close>, \<^verbatim>\<open>B\<close>, \<^verbatim>\<open>Adiff\<close>, \<^verbatim>\<open>Bdiff\<close> are functions of
  \<open>nu\<close> and \<open>m\<close>: \<open>cubic\<close> with \<open>part\<close> 0 or 1, and \<open>cubic_diff\<close>.
\<close>

definition coeff5 :: "darray \<Rightarrow> nat \<Rightarrow> nat \<Rightarrow> nat \<Rightarrow> nat \<Rightarrow> nat \<Rightarrow> double" where
  "coeff5 coeffs_p index part nu m c = coeffs_p (256 * index + 128 * part + 32 * nu + 4 * m + c)"

definition cubic :: "darray \<Rightarrow> nat \<Rightarrow> double \<Rightarrow> nat \<Rightarrow> nat \<Rightarrow> nat \<Rightarrow> double" where
  "cubic coeffs_p index z' part nu m =
     (let C = coeff5 coeffs_p index part nu m
      in dadd (dadd (dadd (dmul (dpow z' (Fin 3)) (C 0)) (dmul (dpow z' (Fin 2)) (C 1)))
                    (dmul z' (C 2)))
              (C 3))"

definition cubic_diff :: "darray \<Rightarrow> nat \<Rightarrow> double \<Rightarrow> nat \<Rightarrow> nat \<Rightarrow> nat \<Rightarrow> double" where
  "cubic_diff coeffs_p index z' part nu m =
     (let C = coeff5 coeffs_p index part nu m
      in dadd (dadd (dmul (dmul (Fin 3) (dpow z' (Fin 2))) (C 0)) (dmul (dmul (Fin 2) z') (C 1)))
              (C 2))"

text \<open>The body of the last double loop of \<^verbatim>\<open>field_3d_derivs\<close>, on \<^verbatim>\<open>field[0..2]\<close>.\<close>

definition field_3d_term ::
  "darray \<Rightarrow> nat \<Rightarrow> double \<Rightarrow> double \<Rightarrow> double \<Rightarrow> double \<Rightarrow> double \<Rightarrow> vec \<Rightarrow> nat \<times> nat \<Rightarrow> vec" where
  "field_3d_term coeffs_p index z' xp yp r phi field = (\<lambda>(nu, m).
     (let A = cubic coeffs_p index z' 0 nu m;
          B = cubic coeffs_p index z' 1 nu m;
          Adiff = cubic_diff coeffs_p index z' 0 nu m;
          Bdiff = cubic_diff coeffs_p index z' 1 nu m;
          e = 2 * int nu + int m;
          mphi = dmul (of_c_int (int m)) phi;
          diff_r = dmul (dmul (dadd (dmul A (dcos mphi)) (dmul B (dsin mphi))) (of_c_int e))
                        (dpow r (of_c_int (e - 1)));
          diff_theta = dmul (dmul (of_c_int (int m))
                                  (dadd (dmul (dneg A) (dsin mphi)) (dmul B (dcos mphi))))
                            (dpow r (of_c_int e))
      in [dsub (field ! 0)
               (dadd (ddiv (dmul diff_r xp) r) (ddiv (dmul diff_theta (dneg yp)) (dpow r (Fin 2)))),
          dsub (field ! 1)
               (dadd (ddiv (dmul diff_r yp) r) (ddiv (dmul diff_theta xp) (dpow r (Fin 2)))),
          dsub (field ! 2)
               (dmul (dadd (dmul Adiff (dcos mphi)) (dmul Bdiff (dsin mphi)))
                     (dpow r (of_c_int e)))]))"

definition field_3d_derivs :: "vec \<Rightarrow> darray \<Rightarrow> darray \<Rightarrow> nat \<Rightarrow> fault + vec" where
  "field_3d_derivs point zs coeffs_p N_z =
     (let xp = point ! 0; yp = point ! 1; zp = point ! 2;
          field = [Fin 0, Fin 0, Fin 0]
      in if N_z = 0 then Inl Undefined
         else if out_of_range zs N_z zp then Inr field
         else fault_bind (z_index zs N_z zp)
           (\<lambda>index.
              let z' = dsub zp (zs index);
                  r = norm_2d xp yp;
                  phi = datan2 yp xp
              in if dlt r MIN_DISTANCE_AXIS
                 then Inr [dneg (cubic coeffs_p index z' 0 0 1),
                           dneg (cubic coeffs_p index z' 1 0 1),
                           dneg (cubic_diff coeffs_p index z' 0 0 0)]
                 else Inr (foldl (field_3d_term coeffs_p index z' xp yp r phi) field
                             (concat (map (\<lambda>nu. map (\<lambda>m. (nu, m)) [0..<M_MAX]) [0..<NU_MAX])))))"

section \<open>3D point potential and triangle integrals\<close>

type_synonym integration_cb_3d =
  "double \<Rightarrow> double \<Rightarrow> double \<Rightarrow> double \<Rightarrow> double \<Rightarrow> double \<Rightarrow> double"

definition normal_3d :: "vec \<Rightarrow> vec \<Rightarrow> vec \<Rightarrow> vec" where
  "normal_3d p1 p2 p3 =
     (let x1 = p1 ! 0; y1 = p1 ! 1; z1 = p1 ! 2;
          x2 = p2 ! 0; y2 = p2 ! 1; z2 = p2 ! 2;
          x3 = p3 ! 0; y3 = p3 ! 1; z3 = p3 ! 2;
          normal_x = dsub (dmul (dsub y2 y1) (dsub z3 z1)) (dmul (dsub y3 y1) (dsub z2 z1));
          normal_y = dsub (dmul (dsub x3 x1) (dsub z2 z1)) (dmul (dsub x2 x1) (dsub z3 z1));
          normal_z = dsub (dmul (dsub x2 x1) (dsub y3 y1)) (dmul (dsub x3 x1) (dsub y2 y1));
          len = norm_3d normal_x normal_y normal_z
      in [ddiv normal_x len, ddiv normal_y len, ddiv normal_z len])"

definition potential_3d_point :: integration_cb_3d where
  "potential_3d_point x0 y0 z0 x y z =
     (let r = norm_3d (dsub x x0) (dsub y y0) (dsub z z0) in ddiv (Fin 1) (dmul (Fin 4) r))"

definition dx1_potential_3d_point :: integration_cb_3d where
  "dx1_potential_3d_point x0 y0 z0 x y z =
     (let r = norm_3d (dsub x x0) (dsub y y0) (dsub z z0)
      in ddiv (dsub x x0) (dmul (Fin 4) (dpow r (Fin 3))))"

definition dy1_potential_3d_point :: integration_cb_3d where
  "dy1_potential_3d_point x0 y0 z0 x y z =
     (let r = norm_3d (dsub x x0) (dsub y y0) (dsub z z0)
      in ddiv (dsub y y0) (dmul (Fin 4) (dpow r (Fin 3))))"

definition dz1_potential_3d_point :: integration_cb_3d where
  "dz1_potential_3d_point x0 y0 z0 x y z =
     (let r = norm_3d (dsub x x0) (dsub y y0) (dsub z z0)
      in ddiv (dsub z z0) (dmul (Fin 4) (dpow r (Fin 3))))"

definition field_dot_normal_3d :: "vec \<Rightarrow> integration_cb_3d" where
  "field_dot_normal_3d normal x0 y0 z0 x y z =
     (let Ex = dneg (dx1_potential_3d_point x0 y0 z0 x y z);
          Ey = dneg (dy1_potential_3d_point x0 y0 z0 x y z);
          Ez = dneg (dz1_potential_3d_point x0 y0 z0 x y z)
      in dadd (dadd (dmul (normal ! 0) Ex) (dmul (normal ! 1) Ey)) (dmul (normal ! 2) Ez))"

definition triangle_area :: "vec \<Rightarrow> vec \<Rightarrow> vec \<Rightarrow> double" where
  "triangle_area v1 v2 v3 =
     (let v1x = v1 ! 0; v1y = v1 ! 1; v1z = v1 ! 2;
          v2x = v2 ! 0; v2y = v2 ! 1; v2z = v2 ! 2;
          v3x = v3 ! 0; v3y = v3 ! 1; v3z = v3 ! 2
      in dmul (dec 5 1)
           (dsqrt (dadd (dadd
              (dpow (dsub (dmul (dsub v2y v1y) (dsub v3z v1z)) (dmul (dsub v2z v1z) (dsub v3y v1y))) (Fin 2))
              (dpow (dsub (dmul (dsub v2z v1z) (dsub v3x v1x)) (dmul (dsub v2x v1x) (dsub v3z v1z))) (Fin 2)))
              (dpow (dsub (dmul (dsub v2x v1x) (dsub v3y v1y)) (dmul (dsub v2y v1y) (dsub v3x v1x))) (Fin 2)))))"

definition triangle_integral :: "vec \<Rightarrow> vec \<Rightarrow> vec \<Rightarrow> vec \<Rightarrow> integration_cb_3d \<Rightarrow> double" where
  "triangle_integral target v1 v2 v3 function =
     (let pt = (\<lambda>k c. dadd (dadd (v1 ! c) (dmul (QUAD_B1 ! k) (dsub (v2 ! c) (v1 ! c))))
                           (dmul (QUAD_B2 ! k) (dsub (v3 ! c) (v1 ! c))));
          sum = foldl (\<lambda>sum k. dadd sum (dmul (QUAD_WEIGHTS ! k)
                          (function (target ! 0) (target ! 1) (target ! 2) (pt k 0) (pt k 1) (pt k 2))))
                      (Fin 0) [0..<N_TRIANGLE_QUAD]
      in dmul (triangle_area v1 v2 v3) sum)"

text \<open>The copy of \<^verbatim>\<open>triangle_integral\<close> with \<^verbatim>\<open>potential_3d_point\<close> inlined.\<close>

definition triangle_integral_potential_3d_point :: "vec \<Rightarrow> vec \<Rightarrow> vec \<Rightarrow> vec \<Rightarrow> double" where
  "triangle_integral_potential_3d_point target v1 v2 v3 =
     (let pt = (\<lambda>k c. dadd (dadd (v1 ! c) (dmul (QUAD_B1 ! k) (dsub (v2 ! c) (v1 ! c))))
                           (dmul (QUAD_B2 ! k) (dsub (v3 ! c) (v1 ! c))));
          sum = foldl (\<lambda>sum k. dadd sum (dmul (QUAD_WEIGHTS ! k)
                          (potential_3d_point (target ! 0) (target ! 1) (target ! 2)
                             (pt k 0) (pt k 1) (pt k 2))))
                      (Fin 0) [0..<N_TRIANGLE_QUAD]
      in dmul (triangle_area v1 v2 v3) sum)"

section \<open>Solver: matrix assembly\<close>

text \<open>\<^verbatim>\<open>enum ExcitationType\<close>; the tags arrive as \<^verbatim>\<open>uint8_t\<close>.\<close>

definition VOLTAGE_FIXED :: "8 word" where
  "VOLTAGE_FIXED = 1"

definition VOLTAGE_FUN :: "8 word" where
  "VOLTAGE_FUN = 2"

definition DIELECTRIC :: "8 word" where
  "DIELECTRIC = 3"

definition FLOATING_CONDUCTOR :: "8 word" where
  "FLOATING_CONDUCTOR = 4"

text \<open>\<^verbatim>\<open>legendre\<close> is a \<^verbatim>\<open>switch\<close> on 0..8; any other order falls through to \<^verbatim>\<open>exit(1)\<close>.\<close>

definition legendre :: "int \<Rightarrow> double \<Rightarrow> fault + double" where
  "legendre N x =
     (let p = (\<lambda>c e. dmul (Fin c) (dpow x (Fin e)))
      in if N = 0 then Inr (Fin 1)
         else if N = 1 then Inr x
         else if N = 2 then Inr (ddiv (dsub (p 3 2) (Fin 1)) (Fin 2))
         else if N = 3 then Inr (ddiv (dsub (p 5 3) (dmul (Fin 3) x)) (Fin 2))
         else if N = 4 then Inr (ddiv (dadd (dsub (p 35 4) (p 30 2)) (Fin 3)) (Fin 8))
         else if N = 5 then Inr (ddiv (dadd (dsub (p 63 5) (p 70 3)) (dmul (Fin 15) x)) (Fin 8))
         else if N = 6 then
           Inr (ddiv (dsub (dadd (dsub (p 231 6) (p 315 4)) (p 105 2)) (Fin 5)) (Fin 16))
         else if N = 7 then
           Inr (ddiv (dsub (dadd (dsub (p 429 7) (p 693 5)) (p 315 3)) (dmul (Fin 35) x)) (Fin 16))
         else if N = 8 then
           Inr (ddiv (dadd (dsub (dadd (dsub (p 6435 8) (p 12012 6)) (p 6930 4)) (p 1260 2)) (Fin 35))
                     (Fin 128))
         else Inl Exit1)"

definition legendre_coefficient :: "int \<Rightarrow> nat \<Rightarrow> fault + double" where
  "legendre_coefficient i j =
     fault_bind (legendre i (GAUSS_QUAD_POINTS ! j))
       (\<lambda>leg. Inr (ddiv (dmul (dmul (GAUSS_QUAD_WEIGHTS ! j) leg) (of_c_int (2 * i + 1))) (Fin 2)))"

text \<open>
  One of the two inner loops over \<open>m\<close> of \<^verbatim>\<open>log_integral\<close>: \<open>len\<close> is
  \<^verbatim>\<open>singular_length\<close> on the left of the singular point and
  \<^verbatim>\<open>length - singular_length\<close> on its right.
\<close>

definition log_side ::
  "double \<Rightarrow> double \<Rightarrow> nat \<Rightarrow> double \<Rightarrow> double \<Rightarrow> double \<Rightarrow> fault + double" where
  "log_side w len k legendre_arg pot_ring integration_sum =
     for_each [0..<N_QUAD_2D]
       (\<lambda>m sum. fault_bind (legendre_coefficient (int m) k)
          (\<lambda>lc. fault_bind (legendre (int m) legendre_arg)
             (\<lambda>leg. Inr (dadd sum (dmul (dmul (dmul (dmul w len) lc) leg) pot_ring)))))
       integration_sum"

definition log_integral :: "darray \<Rightarrow> nat \<Rightarrow> nat \<Rightarrow> nat \<Rightarrow> fault + double" where
  "log_integral line_points_p i l k =
     (let v1 = vert line_points_p i 0; v2 = vert line_points_p i 1;
          len = segment_length line_points_p i;
          singular_point_x = sample line_points_p i l 0;
          singular_point_y = sample line_points_p i l 1;
          singular_length = dmul len (length_factor l)
      in for_each [0..<N_LOG_QUAD_2D]
           (\<lambda>o' sum.
              let p = GAUSS_LOG_QUAD_POINTS ! o';
                  w = GAUSS_LOG_QUAD_WEIGHTS ! o';
                  sampled = (\<lambda>d c. dadd (v1 c) (dmul (ddiv d len) (dsub (v2 c) (v1 c))));
                  legendre_arg = (\<lambda>d. dsub (ddiv (dmul (Fin 2) d) len) (Fin 1));
                  pot = (\<lambda>d. potential_radial_ring singular_point_x singular_point_y (sampled d 0) (sampled d 1));
                  length_left = dsub singular_length (dmul singular_length p);
                  length_right = dadd singular_length (dmul (dsub len singular_length) p)
              in fault_bind
                   (log_side w singular_length k (legendre_arg length_left) (pot length_left) sum)
                   (log_side w (dsub len singular_length) k (legendre_arg length_right) (pot length_right)))
           (Fin 0))"

text \<open>
  The rows \<^verbatim>\<open>for(int i = lines_range_start; i <= lines_range_end; i++)\<close>. Both bounds are
  \<^verbatim>\<open>int\<close>; the assertion compares them with the unsigned \<^verbatim>\<open>N_lines\<close>, so a negative
  bound fails it.
\<close>

definition range_ok :: "nat \<Rightarrow> int \<Rightarrow> int \<Rightarrow> bool" where
  "range_ok N_lines lines_range_start lines_range_end =
     (0 \<le> lines_range_start \<and> lines_range_start < int N_lines \<and>
      0 \<le> lines_range_end \<and> lines_range_end < int N_lines)"

definition row_range :: "int \<Rightarrow> int \<Rightarrow> nat list" where
  "row_range lines_range_start lines_range_end = [nat lines_range_start..<nat (lines_range_end + 1)]"

definition fill_self_voltages :: "darray \<Rightarrow> darray \<Rightarrow> nat \<Rightarrow> nat \<Rightarrow> int \<Rightarrow> int \<Rightarrow> fault + darray" where
  "fill_self_voltages matrix line_points_p N_lines N_matrix lines_range_start lines_range_end =
     for_each (row_range lines_range_start lines_range_end)
       (\<lambda>i. for_each [0..<N_QUAD_2D]
          (\<lambda>l. for_each [0..<N_QUAD_2D]
             (\<lambda>k m. fault_bind (log_integral line_points_p i l k)
                (\<lambda>v. Inr (m((N_QUAD_2D * i + l) * N_matrix + N_QUAD_2D * i + k := v))))))
       matrix"

definition is_voltage :: "8 word \<Rightarrow> bool" where
  "is_voltage type' = (type' = VOLTAGE_FIXED \<or> type' = VOLTAGE_FUN \<or> type' = FLOATING_CONDUCTOR)"

text \<open>
  The cross blocks of row block \<open>i\<close> in \<^verbatim>\<open>fill_matrix_radial\<close>. The branches for
  \<^verbatim>\<open>DIELECTRIC\<close> and for an unknown tag stand in a comment after the call of
  \<^verbatim>\<open>fill_self_voltages\<close>: the \<^verbatim>\<open>if\<close> has no \<^verbatim>\<open>else\<close>.
\<close>

definition radial_row :: "darray \<Rightarrow> (nat \<Rightarrow> 8 word) \<Rightarrow> nat \<Rightarrow> nat \<Rightarrow> nat \<Rightarrow> darray \<Rightarrow> darray" where
  "radial_row line_points_p excitation_types N_lines N_matrix i matrix =
     (if is_voltage (excitation_types i)
      then foldl (\<lambda>m j.
             if i = j then m
             else foldl (\<lambda>m l.
                    foldl (\<lambda>m k.
                       let target_x = sample line_points_p i l 0;
                           target_y = sample line_points_p i l 1;
                           source_x = sample line_points_p j k 0;
                           source_y = sample line_points_p j k 1;
                           weight = ddiv (dmul (GAUSS_QUAD_WEIGHTS ! k) (segment_length line_points_p j))
                                         (Fin 2)
                       in m((N_QUAD_2D * i + l) * N_matrix + N_QUAD_2D * j + k :=
                              dmul weight (potential_radial_ring target_x target_y source_x source_y)))
                      m [0..<N_QUAD_2D])
                  m [0..<N_QUAD_2D])
           matrix [0..<N_lines]
      else matrix)"

definition fill_matrix_radial ::
  "darray \<Rightarrow> darray \<Rightarrow> (nat \<Rightarrow> 8 word) \<Rightarrow> darray \<Rightarrow> nat \<Rightarrow> nat \<Rightarrow> int \<Rightarrow> int \<Rightarrow> fault + darray" where
  "fill_matrix_radial matrix line_points_p excitation_types excitation_values N_lines N_matrix
       lines_range_start lines_range_end =
     (if \<not> range_ok N_lines lines_range_start lines_range_end then Inl AssertFailed
      else if N_matrix \<noteq> N_QUAD_2D * N_lines then Inl AssertFailed
      else fill_self_voltages
             (foldl (\<lambda>m i. radial_row line_points_p excitation_types N_lines N_matrix i m)
                    matrix (row_range lines_range_start lines_range_end))
             line_points_p N_lines N_matrix lines_range_start lines_range_end)"

text \<open>\<^verbatim>\<open>triangle_points[i][a][b]\<close> is \<^verbatim>\<open>triangle_points_p[9*i + 3*a + b]\<close>.\<close>

definition tri_vertex :: "darray \<Rightarrow> nat \<Rightarrow> nat \<Rightarrow> vec" where
  "tri_vertex triangle_points_p i a = map (\<lambda>b. triangle_points_p (9 * i + 3 * a + b)) [0..<3]"

definition row_3d :: "darray \<Rightarrow> (nat \<Rightarrow> 8 word) \<Rightarrow> darray \<Rightarrow> nat \<Rightarrow> nat \<Rightarrow> nat \<Rightarrow> darray \<Rightarrow> fault + darray" where
  "row_3d triangle_points_p excitation_types excitation_values N_lines N_matrix i matrix =
     (let p1 = tri_vertex triangle_points_p i 0;
          p2 = tri_vertex triangle_points_p i 1;
          p3 = tri_vertex triangle_points_p i 2;
          target = map (\<lambda>c. ddiv (dadd (dadd (p1 ! c) (p2 ! c)) (p3 ! c)) (Fin 3)) [0..<3];
          type' = excitation_types i
      in if is_voltage type'
         then Inr (foldl (\<lambda>m j. m(i * N_matrix + j :=
                             triangle_integral_potential_3d_point target
                               (tri_vertex triangle_points_p j 0) (tri_vertex triangle_points_p j 1)
                               (tri_vertex triangle_points_p j 2)))
                         matrix [0..<N_lines])
         else if type' = DIELECTRIC
         then (let normal = normal_3d p1 p2 p3;
                   K = excitation_values i
               in Inr (foldl (\<lambda>m j.
                         let factor = ddiv (dsub (dmul (Fin 2) K) (Fin 2))
                                           (dmul M_PI (dadd (Fin 1) K));
                             v = dmul factor
                                   (triangle_integral target
                                      (tri_vertex triangle_points_p j 0) (tri_vertex triangle_points_p j 1)
                                      (tri_vertex triangle_points_p j 2) (field_dot_normal_3d normal))
                         in m(i * N_matrix + j := (if i = j then dsub v (Fin 1) else v)))
                       matrix [0..<N_lines]))
         else Inl Exit1)"

definition fill_matrix_3d ::
  "darray \<Rightarrow> darray \<Rightarrow> (nat \<Rightarrow> 8 word) \<Rightarrow> darray \<Rightarrow> nat \<Rightarrow> nat \<Rightarrow> int \<Rightarrow> int \<Rightarrow> fault + darray" where
  "fill_matrix_3d matrix triangle_points_p excitation_types excitation_values N_lines N_matrix
       lines_range_start lines_range_end =
     (if \<not> range_ok N_lines lines_range_start lines_range_end then Inl AssertFailed
      else for_each (row_range lines_range_start lines_range_end)
             (row_3d triangle_points_p excitation_types excitation_values N_lines N_matrix)
             matrix)"

section \<open>Plane intersection\<close>

text \<open>
  \<^verbatim>\<open>xy_plane_intersection_2d\<close> and \<^verbatim>\<open>xy_plane_intersection_3d\<close> are the same loop on
  rows of width 4 with \<open>z\<close> in column 1, and on rows of width 6 with \<open>z\<close> in column 2:
  \<^verbatim>\<open>positions[i][k]\<close> is \<^verbatim>\<open>positions_p[w*i + k]\<close>. The walk at \<open>i\<close> covers
  \<^verbatim>\<open>for(; i > 0; i--)\<close>. \<open>Some\<close> is \<^verbatim>\<open>return true\<close> with the vector written to
  \<^verbatim>\<open>result\<close>; \<open>None\<close> is \<^verbatim>\<open>return false\<close>, which leaves \<^verbatim>\<open>result\<close> as it was.
\<close>

definition straddles :: "double \<Rightarrow> double \<Rightarrow> double \<Rightarrow> bool" where
  "straddles z1 z2 z = (dle (fmin z1 z2) z \<and> dle z (fmax z1 z2))"

definition interpolate :: "nat \<Rightarrow> nat \<Rightarrow> darray \<Rightarrow> double \<Rightarrow> nat \<Rightarrow> vec" where
  "interpolate w zi positions_p z i =
     (let z1 = positions_p (w * (i - 1) + zi);
          z2 = positions_p (w * i + zi);
          ratio = dfabs (ddiv (dsub z z1) (dsub z1 z2))
      in map (\<lambda>k. dadd (positions_p (w * (i - 1) + k))
                       (dmul ratio (dsub (positions_p (w * i + k)) (positions_p (w * (i - 1) + k)))))
             [0..<w])"

fun plane_walk :: "nat \<Rightarrow> nat \<Rightarrow> darray \<Rightarrow> double \<Rightarrow> nat \<Rightarrow> vec option" where
  "plane_walk w zi positions_p z 0 = None"
| "plane_walk w zi positions_p z (Suc i) =
     (if straddles (positions_p (w * i + zi)) (positions_p (w * Suc i + zi)) z
      then Some (interpolate w zi positions_p z (Suc i))
      else plane_walk w zi positions_p z i)"

definition xy_plane_intersection_2d :: "darray \<Rightarrow> nat \<Rightarrow> double \<Rightarrow> vec option" where
  "xy_plane_intersection_2d positions_p N_p z = plane_walk 4 1 positions_p z (N_p - 1)"

definition xy_plane_intersection_3d :: "darray \<Rightarrow> nat \<Rightarrow> double \<Rightarrow> vec option" where
  "xy_plane_intersection_3d positions_p N_p z = plane_walk 6 2 positions_p z (N_p - 1)"

section \<open>Notions used in the statements\<close>

fun is_fin :: "double \<Rightarrow> bool" where
  "is_fin (Fin a) = True"
| "is_fin _ = False"

fun fin_val :: "double \<Rightarrow> real" where
  "fin_val (Fin a) = a"
| "fin_val _ = 0"



text \<open>
  Row \<open>n\<close> of the output holds an accepted step from row \<open>n - 1\<close>: for some step size the
  estimate of the six stages is within \<open>atol\<close>, the row is the advanced state and the time
  is the time before plus the step size.
\<close>

definition accepted_from :: "(vec \<Rightarrow> vec) \<Rightarrow> double \<Rightarrow> darray \<Rightarrow> darray \<Rightarrow> nat \<Rightarrow> bool" where
  "accepted_from field atol tms pos n =
     (\<exists>h. dle (truncation_error (rk_stages field (row6 pos (n - 1)) h)) atol \<and>
          row6 pos n = advance (row6 pos (n - 1)) (rk_stages field (row6 pos (n - 1)) h) \<and>
          tms n = dadd (tms (n - 1)) h)"

text \<open>The invariant of the \<^verbatim>\<open>while\<close> loop, and what holds when the call returns.\<close>

definition trace_inv :: "(vec \<Rightarrow> vec) \<Rightarrow> vec list \<Rightarrow> double \<Rightarrow> tracer \<Rightarrow> bool" where
  "trace_inv field bounds atol s =
     (1 \<le> st_N s \<and> st_y s = row6 (st_pos s) (st_N s - 1) \<and>
      (\<forall>i. i + 1 < st_N s \<longrightarrow> in_bounds bounds (row6 (st_pos s) i)) \<and>
      (\<forall>n. 1 \<le> n \<and> n < st_N s \<longrightarrow> accepted_from field atol (st_times s) (st_pos s) n))"

definition trace_post :: "(vec \<Rightarrow> vec) \<Rightarrow> vec list \<Rightarrow> double \<Rightarrow> tracer \<Rightarrow> bool" where
  "trace_post field bounds atol r =
     (trace_inv field bounds atol r \<and> st_N r \<le> TRACING_BLOCK_SIZE \<and>
      (st_N r = TRACING_BLOCK_SIZE \<or> \<not> in_bounds bounds (row6 (st_pos r) (st_N r - 1))))"

text \<open>From state \<open>s\<close> to state \<open>r\<close> only the rows from \<open>st_N s\<close> up to \<open>st_N r - 1\<close> change.\<close>

definition frame_ok :: "tracer \<Rightarrow> tracer \<Rightarrow> bool" where
  "frame_ok s r =
     (st_N s \<le> st_N r \<and>
      (\<forall>a. a < 6 * st_N s \<or> 6 * st_N r \<le> a \<longrightarrow> st_pos r a = st_pos s a) \<and>
      (\<forall>n. n < st_N s \<or> st_N r \<le> n \<longrightarrow> st_times r n = st_times s n))"

text \<open>Two states of the tracer that agree on what has been stored so far.\<close>

definition agree :: "tracer \<Rightarrow> tracer \<Rightarrow> bool" where
  "agree s t =
     (st_y s = st_y t \<and> st_h s = st_h t \<and> st_N s = st_N t \<and>
      (\<forall>a. a < 6 * st_N s \<longrightarrow> st_pos s a = st_pos t a) \<and>
      (\<forall>n. n < st_N s \<longrightarrow> st_times s n = st_times t n))"

text \<open>The quintic of the specification, on real coefficients \<open>c 0 .. c 5\<close>.\<close>

definition quintic_spec :: "(nat \<Rightarrow> real) \<Rightarrow> real \<Rightarrow> real" where
  "quintic_spec c d = c 0 * d ^ 5 + c 1 * d ^ 4 + c 2 * d ^ 3 + c 3 * d ^ 2 + c 4 * d + c 5"

text \<open>
  The interpolated vector as the specification writes it: every component of rows \<open>i - 1\<close>
  and \<open>i\<close> at the fraction \<open>|z - z1| / |z1 - z2|\<close>.
\<close>

definition interp_spec :: "nat \<Rightarrow> nat \<Rightarrow> darray \<Rightarrow> double \<Rightarrow> nat \<Rightarrow> vec" where
  "interp_spec w zi p z i =
     (let z1 = p (w * (i - 1) + zi);
          z2 = p (w * i + zi);
          lam = ddiv (dfabs (dsub z z1)) (dfabs (dsub z1 z2))
      in map (\<lambda>k. dadd (p (w * (i - 1) + k)) (dmul lam (dsub (p (w * i + k)) (p (w * (i - 1) + k)))))
             [0..<w])"

text \<open>
  The three-term recurrence of the specification for the on-axis derivatives, on real
  numbers: \<open>d\<close> is \<open>z0 - z\<close>.
\<close>

fun D_spec :: "real \<Rightarrow> real \<Rightarrow> nat \<Rightarrow> real" where
  "D_spec d R 0 = 1 / R"
| "D_spec d R (Suc 0) = - d / R ^ 3"
| "D_spec d R (Suc (Suc n)) =
     - (1 / R ^ 2) * ((2 * real (Suc n) + 1) * d * D_spec d R (Suc n) + (real (Suc n)) ^ 2 * D_spec d R n)"


text \<open>
  The value of the complete elliptic integral at \<open>m\<close> obtained from the approximant at
  \<open>1 - 1/(1-m)\<close> by the Landen-type identity.
\<close>

definition landen :: "double \<Rightarrow> double" where
  "landen m = ddiv (ellipk_singularity (dsub (Fin 1) (ddiv (Fin 1) (dsub (Fin 1) m))))
                   (dsqrt (dsub (Fin 1) m))"

subsection \<open>Concrete inputs\<close>

text \<open>
  A particle at the origin with velocity \<open>(0, 0, 1)\<close> in a field that is zero everywhere,
  in the box \<open>[-1, 1] x [-1, 1] x [0, 0.015]\<close>.
\<close>

definition zero_field :: "vec \<Rightarrow> vec" where
  "zero_field p = [Fin 0, Fin 0, Fin 0]"

definition flight_pos :: darray where
  "flight_pos a = (if a = 5 then Fin 1 else Fin 0)"

definition flight_times :: darray where
  "flight_times n = Fin 0"

definition flight_bounds :: "vec list" where
  "flight_bounds = [[Fin (- 1), Fin 1], [Fin (- 1), Fin 1], [Fin 0, dec 15 3]]"



text \<open>The grid \<open>0, 1, 2, ...\<close> and a coefficient table whose entry \<open>a\<close> is the number \<open>a\<close>.\<close>

definition unit_grid :: darray where
  "unit_grid i = Fin (of_nat i)"

definition ramp_coeffs :: darray where
  "ramp_coeffs a = Fin (of_nat a)"

text \<open>The grid of the binary64 values \<^verbatim>\<open>i * 0.1\<close>.\<close>

definition tenth_grid :: darray where
  "tenth_grid i = rd (dmul (of_c_int (int i)) (b64 1 1))"

text \<open>
  A trajectory of four states of width 6 with \<open>z = 0, 1/2, 3/2, 5/2\<close> and \<open>x = 0, 1, 2, 3\<close>.
\<close>

definition s5_traj :: darray where
  "s5_traj a = (if a mod 6 = 2 then [Fin 0, Fin (1 / 2), Fin (3 / 2), Fin (5 / 2)] ! (a div 6)
                else if a mod 6 = 0 then Fin (of_nat (a div 6))
                else Fin 0)"

text \<open>Two panels: the first with the unknown tag 7, the second \<^verbatim>\<open>VOLTAGE_FIXED\<close>.\<close>

definition mixed_tags :: "nat \<Rightarrow> 8 word" where
  "mixed_tags i = (if i = 0 then 7 else 1)"

section \<open>Particle tracing: properties\<close>

lemma upt6: "[0..<6] = [0, 1, 2, 3, 4, 5]"
  by (simp add: upt_rec)

lemma less6_cases: "i < 6 \<Longrightarrow> i = 0 \<or> i = 1 \<or> i = 2 \<or> i = 3 \<or> i = 4 \<or> i = (5::nat)"
  by arith


lemma store_row6_frame: "a < 6 * n \<or> 6 * n + 6 \<le> a \<Longrightarrow> store_row6 pos n y a = pos a"
  by (auto simp: store_row6_def upt6)

lemma store_row6_at: "i < 6 \<Longrightarrow> store_row6 pos n y (6 * n + i) = y ! i"
  by (drule less6_cases) (auto simp: store_row6_def upt6)

lemma row6_store_same: "length y = 6 \<Longrightarrow> row6 (store_row6 pos n y) n = y"
  by (auto simp: row6_def store_row6_at intro!: nth_equalityI)

lemma row6_store_other: "m \<noteq> n \<Longrightarrow> row6 (store_row6 pos n y) m = row6 pos m"
proof -
  assume "m \<noteq> n"
  then have "\<And>i. i < 6 \<Longrightarrow> 6 * m + i < 6 * n \<or> 6 * n + 6 \<le> 6 * m + i" by arith
  then show ?thesis by (simp add: row6_def store_row6_frame)
qed

lemma length_advance: "length (advance y k) = 6"
  by (simp add: advance_def)

lemma accept_fields:
  "st_N (accept s k) = st_N s + 1"
  "st_y (accept s k) = advance (st_y s) k"
  "row6 (st_pos (accept s k)) (st_N s) = advance (st_y s) k"
  "st_times (accept s k) (st_N s) = dadd (st_times s (st_N s - 1)) (st_h s)"
  by (simp_all add: accept_def Let_def row6_store_same length_advance)

subsection \<open>The truncation estimate is a maximum\<close>

lemma is_finE: "is_fin x \<Longrightarrow> (\<And>a. x = Fin a \<Longrightarrow> P) \<Longrightarrow> P"
  by (cases x) auto




subsection \<open>One pass through the loop body\<close>


lemma trace_body_reject:
  assumes "\<not> dle (truncation_error (rk_stages field (st_y s) (st_h s))) atol"
  shows "trace_body field atol hmax s =
     Continue (s\<lparr>st_h := next_h (st_h s) atol (truncation_error (rk_stages field (st_y s) (st_h s))) hmax\<rparr>)"
  unfolding trace_body_def Let_def using assms by (simp only: if_False)


lemma trace_body_cases:
  assumes "trace_body field atol hmax s = out"
  obtains (ret) "dle (truncation_error (rk_stages field (st_y s) (st_h s))) atol"
      and "st_N s + 1 = TRACING_BLOCK_SIZE"
      and "out = Return (accept s (rk_stages field (st_y s) (st_h s)))"
  | (acc) h' where "dle (truncation_error (rk_stages field (st_y s) (st_h s))) atol"
      and "st_N s + 1 \<noteq> TRACING_BLOCK_SIZE"
      and "out = Continue (accept s (rk_stages field (st_y s) (st_h s))\<lparr>st_h := h'\<rparr>)"
  | (rej) h' where "\<not> dle (truncation_error (rk_stages field (st_y s) (st_h s))) atol"
      and "out = Continue (s\<lparr>st_h := h'\<rparr>)"
proof (cases "dle (truncation_error (rk_stages field (st_y s) (st_h s))) atol")
  case False
  from trace_body_reject[OF False, of hmax] assms
  have "out = Continue (s\<lparr>st_h := next_h (st_h s) atol
               (truncation_error (rk_stages field (st_y s) (st_h s))) hmax\<rparr>)"
    by simp
  with False show ?thesis by (rule rej)
next
  case True
  show ?thesis
  proof (cases "st_N s + 1 = TRACING_BLOCK_SIZE")
    case T: True
    with True have "trace_body field atol hmax s = Return (accept s (rk_stages field (st_y s) (st_h s)))"
      unfolding trace_body_def Let_def by (simp add: accept_fields)
    with assms have "out = Return (accept s (rk_stages field (st_y s) (st_h s)))" by simp
    with True T show ?thesis by (rule ret)
  next
    case F: False
    with True have "trace_body field atol hmax s =
       Continue ((accept s (rk_stages field (st_y s) (st_h s)))
         \<lparr>st_h := next_h (st_h s) atol (truncation_error (rk_stages field (st_y s) (st_h s))) hmax\<rparr>)"
      unfolding trace_body_def Let_def by (simp add: accept_fields)
    with assms have "out = Continue ((accept s (rk_stages field (st_y s) (st_h s)))
         \<lparr>st_h := next_h (st_h s) atol (truncation_error (rk_stages field (st_y s) (st_h s))) hmax\<rparr>)"
      by simp
    with True F show ?thesis by (rule acc)
  qed
qed


lemmas tracer_eval = rk_stages_def produce_new_y_def produce_new_k_def zero66_def coefficients_def
  B2_def B3_def B4_def B5_def B6_def CH_def CT_def EM_def dec_def upt6 Let_def
  truncation_error_def err_component_def



subsection \<open>The loop\<close>

lemma accepted_from_cong:
  assumes "accepted_from field atol tms pos n"
    and "row6 pos' n = row6 pos n" and "row6 pos' (n - 1) = row6 pos (n - 1)"
    and "tms' n = tms n" and "tms' (n - 1) = tms (n - 1)"
  shows "accepted_from field atol tms' pos' n"
  using assms unfolding accepted_from_def by auto

lemma trace_inv_accept:
  assumes inv: "trace_inv field bounds atol s"
    and inb: "in_bounds bounds (st_y s)"
    and acc: "dle (truncation_error (rk_stages field (st_y s) (st_h s))) atol"
  shows "trace_inv field bounds atol (accept s (rk_stages field (st_y s) (st_h s))\<lparr>st_h := h'\<rparr>)"
proof -
  let ?k = "rk_stages field (st_y s) (st_h s)"
  let ?s = "accept s ?k"
  have N: "st_N ?s = st_N s + 1" and Y: "st_y ?s = advance (st_y s) ?k"
    and P: "st_pos ?s = store_row6 (st_pos s) (st_N s) (advance (st_y s) ?k)"
    and T: "st_times ?s = (st_times s)(st_N s := dadd (st_times s (st_N s - 1)) (st_h s))"
    by (simp_all add: accept_def Let_def)
  from inv have N1: "1 \<le> st_N s" and y: "st_y s = row6 (st_pos s) (st_N s - 1)"
    and ib: "\<And>i. i + 1 < st_N s \<Longrightarrow> in_bounds bounds (row6 (st_pos s) i)"
    and af: "\<And>n. 1 \<le> n \<Longrightarrow> n < st_N s \<Longrightarrow> accepted_from field atol (st_times s) (st_pos s) n"
    by (auto simp: trace_inv_def)
  have same: "row6 (st_pos ?s) (st_N s) = advance (st_y s) ?k"
    by (simp add: P row6_store_same length_advance)
  have other: "\<And>m. m < st_N s \<Longrightarrow> row6 (st_pos ?s) m = row6 (st_pos s) m"
    by (simp add: P row6_store_other)
  have tother: "\<And>m. m < st_N s \<Longrightarrow> st_times ?s m = st_times s m"
    by (simp add: T)
  have a: "st_y ?s = row6 (st_pos ?s) (st_N ?s - 1)"
    by (simp add: N Y same)
  have b: "in_bounds bounds (row6 (st_pos ?s) i)" if "i + 1 < st_N ?s" for i
  proof (cases "i + 1 < st_N s")
    case True
    then show ?thesis using ib other by simp
  next
    case False
    with that N N1 have "i = st_N s - 1" by arith
    with N1 other[of "st_N s - 1"] y inb show ?thesis by simp
  qed
  have c: "accepted_from field atol (st_times ?s) (st_pos ?s) n" if "1 \<le> n" "n < st_N ?s" for n
  proof (cases "n < st_N s")
    case True
    with that show ?thesis
      by (intro accepted_from_cong[OF af]) (simp_all add: other tother)
  next
    case False
    with that N have n: "n = st_N s" by arith
    have "row6 (st_pos ?s) (n - 1) = st_y s"
      using n N1 other[of "st_N s - 1"] y by simp
    moreover from N1 have "st_N s - 1 \<noteq> st_N s" by arith
    then have "st_times ?s n = dadd (st_times ?s (n - 1)) (st_h s)"
      using n by (simp add: T)
    ultimately show ?thesis
      unfolding accepted_from_def using acc same n by (intro exI[of _ "st_h s"]) simp
  qed
  show ?thesis
    unfolding trace_inv_def using a b c N by simp
qed

lemma trace_inv_h: "trace_inv field bounds atol (s\<lparr>st_h := h'\<rparr>) = trace_inv field bounds atol s"
  by (simp add: trace_inv_def)

lemma trace_loop_post:
  "trace_loop fuel field bounds atol hmax s = Some r \<Longrightarrow> trace_inv field bounds atol s \<Longrightarrow>
   st_N s < TRACING_BLOCK_SIZE \<Longrightarrow> trace_post field bounds atol r"
proof (induction fuel arbitrary: s)
  case 0
  then show ?case by simp
next
  case (Suc fuel)
  let ?k = "rk_stages field (st_y s) (st_h s)"
  show ?case
  proof (cases "in_bounds bounds (st_y s)")
    case False
    with Suc.prems have "r = s" by simp
    with False Suc.prems show ?thesis by (simp add: trace_post_def trace_inv_def)
  next
    case inb: True
    obtain out where out: "trace_body field atol hmax s = out" by simp
    from out show ?thesis
    proof (cases rule: trace_body_cases)
      case ret
      with inb Suc.prems out have r: "r = accept s ?k" by simp
      from trace_inv_accept[OF Suc.prems(2) inb ret(1), of "st_h (accept s ?k)"]
      have "trace_inv field bounds atol (accept s ?k)" by simp
      with r ret(2) show ?thesis by (simp add: trace_post_def accept_fields)
    next
      case (acc h')
      with inb Suc.prems out
      have "trace_loop fuel field bounds atol hmax (accept s ?k\<lparr>st_h := h'\<rparr>) = Some r" by simp
      moreover have "trace_inv field bounds atol (accept s ?k\<lparr>st_h := h'\<rparr>)"
        by (rule trace_inv_accept[OF Suc.prems(2) inb acc(1)])
      moreover from acc(2) Suc.prems(3) have "st_N (accept s ?k\<lparr>st_h := h'\<rparr>) < TRACING_BLOCK_SIZE"
        by (simp add: accept_fields)
      ultimately show ?thesis by (rule Suc.IH)
    next
      case (rej h')
      with inb Suc.prems out
      have "trace_loop fuel field bounds atol hmax (s\<lparr>st_h := h'\<rparr>) = Some r" by simp
      moreover from Suc.prems(2) have "trace_inv field bounds atol (s\<lparr>st_h := h'\<rparr>)"
        by (simp add: trace_inv_h)
      moreover from Suc.prems(3) have "st_N (s\<lparr>st_h := h'\<rparr>) < TRACING_BLOCK_SIZE" by simp
      ultimately show ?thesis by (rule Suc.IH)
    qed
  qed
qed

lemma trace_inv_init: "trace_inv field bounds atol (trace_init times_array pos_array)"
  by (simp add: trace_inv_def trace_init_def Let_def)

lemma trace_particle_post:
  assumes "trace_particle fuel times_array pos_array field bounds atol = Some (N, times', pos')"
  shows "1 \<le> N \<and> N \<le> TRACING_BLOCK_SIZE \<and>
         (N = TRACING_BLOCK_SIZE \<or> \<not> in_bounds bounds (row6 pos' (N - 1))) \<and>
         (\<forall>i. i + 1 < N \<longrightarrow> in_bounds bounds (row6 pos' i)) \<and>
         (\<forall>n. 1 \<le> n \<and> n < N \<longrightarrow> accepted_from field atol times' pos' n)"
proof -
  let ?s0 = "trace_init times_array pos_array"
  from assms obtain r where r: "trace_loop fuel field bounds atol (st_h ?s0) ?s0 = Some r"
    and eq: "N = st_N r" "times' = st_times r" "pos' = st_pos r"
    by (auto simp: trace_particle_def Let_def)
  have "st_N ?s0 < TRACING_BLOCK_SIZE"
    by (simp add: trace_init_def Let_def TRACING_BLOCK_SIZE_def)
  from trace_loop_post[OF r trace_inv_init this] show ?thesis
    unfolding trace_post_def trace_inv_def eq by simp
qed

subsection \<open>A free flight\<close>

lemma free_step:
  "0 < hh \<Longrightarrow> 0 < a \<Longrightarrow> Suc n \<noteq> TRACING_BLOCK_SIZE \<Longrightarrow>
   trace_body zero_field (Fin a) (Fin hm)
     \<lparr>st_y = [Fin 0, Fin 0, Fin z, Fin 0, Fin 0, Fin 1], st_h = Fin hh, st_N = n,
      st_times = T, st_pos = P\<rparr>
   = Continue \<lparr>st_y = [Fin 0, Fin 0, Fin (z + hh), Fin 0, Fin 0, Fin 1], st_h = Fin hm, st_N = Suc n,
       st_times = T(n := dadd (T (n - 1)) (Fin hh)),
       st_pos = store_row6 P n [Fin 0, Fin 0, Fin (z + hh), Fin 0, Fin 0, Fin 1]\<rparr>"
  by (simp add: trace_body_def accept_def tracer_eval advance_def next_h_def fmin_def
      zero_field_def numeral_eq_Suc algebra_simps)

lemma flight_init:
  "trace_init flight_times flight_pos =
     \<lparr>st_y = [Fin 0, Fin 0, Fin 0, Fin 0, Fin 0, Fin 1], st_h = Fin (1 / 100), st_N = 1,
      st_times = flight_times, st_pos = flight_pos\<rparr>"
  by (simp add: trace_init_def row6_def upt6 flight_pos_def norm_3d_def TRACING_STEP_MAX_def dec_def)

lemma flight_run:
  "\<exists>T' P'. trace_particle (Suc (Suc (Suc 0))) flight_times flight_pos zero_field flight_bounds (dec 1 5)
            = Some (3, T', P') \<and>
          row6 P' 0 = [Fin 0, Fin 0, Fin 0, Fin 0, Fin 0, Fin 1] \<and>
          row6 P' 1 = [Fin 0, Fin 0, Fin (1 / 100), Fin 0, Fin 0, Fin 1] \<and>
          row6 P' 2 = [Fin 0, Fin 0, Fin (2 / 100), Fin 0, Fin 0, Fin 1]"
  unfolding trace_particle_def flight_init Let_def
  by (simp add: free_step TRACING_BLOCK_SIZE_def in_bounds_def flight_bounds_def dec_def row6_def
      upt6 store_row6_def flight_pos_def)

text \<open>
  Claim C3. The loop of \<^verbatim>\<open>trace_particle\<close> returns at once when the current state is not
  inside the box \<open>[xmin, xmax] x [ymin, ymax] x [zmin, zmax]\<close> (a point on the boundary is
  inside), and at once when an accepted step brings the number of stored states to
  \<open>TRACING_BLOCK_SIZE = 100000\<close>. Whenever the call returns \<open>N\<close>: \<open>1 <= N <= 100000\<close>;
  either \<open>N = 100000\<close> or the last stored state, row \<open>N - 1\<close>, is outside the box; every
  stored state before the last is inside the box; and every row \<open>1 .. N - 1\<close> holds an
  accepted step from the row before it, so \<open>N\<close> counts the stored samples, the initial
  one at row 0 included.
\<close>

theorem trace_particle_termination:
  "(\<not> in_bounds bounds (st_y s) \<longrightarrow> trace_loop (Suc fuel) field bounds atol hmax s = Some s) \<and>
   (in_bounds bounds (st_y s) \<and>
    dle (truncation_error (rk_stages field (st_y s) (st_h s))) atol \<and>
    st_N s + 1 = TRACING_BLOCK_SIZE \<longrightarrow>
      trace_loop (Suc fuel) field bounds atol hmax s
        = Some (accept s (rk_stages field (st_y s) (st_h s)))) \<and>
   (trace_particle fuel' times_array pos_array field bounds atol = Some (N, times', pos') \<longrightarrow>
      1 \<le> N \<and> N \<le> TRACING_BLOCK_SIZE \<and>
      (N = TRACING_BLOCK_SIZE \<or> \<not> in_bounds bounds (row6 pos' (N - 1))) \<and>
      (\<forall>i. i + 1 < N \<longrightarrow> in_bounds bounds (row6 pos' i)) \<and>
      (\<forall>n. 1 \<le> n \<and> n < N \<longrightarrow> accepted_from field atol times' pos' n))"
proof (intro conjI impI)
  assume "\<not> in_bounds bounds (st_y s)"
  then show "trace_loop (Suc fuel) field bounds atol hmax s = Some s" by simp
next
  assume a: "in_bounds bounds (st_y s) \<and>
    dle (truncation_error (rk_stages field (st_y s) (st_h s))) atol \<and>
    st_N s + 1 = TRACING_BLOCK_SIZE"
  then have "trace_body field atol hmax s = Return (accept s (rk_stages field (st_y s) (st_h s)))"
    unfolding trace_body_def Let_def by (simp add: accept_fields)
  with a show "trace_loop (Suc fuel) field bounds atol hmax s
        = Some (accept s (rk_stages field (st_y s) (st_h s)))" by simp
next
  assume r: "trace_particle fuel' times_array pos_array field bounds atol = Some (N, times', pos')"
  from trace_particle_post[OF r]
  show "1 \<le> N" and "N \<le> TRACING_BLOCK_SIZE"
    and "N = TRACING_BLOCK_SIZE \<or> \<not> in_bounds bounds (row6 pos' (N - 1))"
    and "\<forall>i. i + 1 < N \<longrightarrow> in_bounds bounds (row6 pos' i)"
    and "\<forall>n. 1 \<le> n \<and> n < N \<longrightarrow> accepted_from field atol times' pos' n"
    by simp_all
qed

text \<open>
  The free flight leaves the box \<open>0 <= z <= 0.015\<close> with its second step: the call returns
  3, rows 0 and 1 are inside the box and row 2 is outside.
\<close>

theorem trace_particle_termination_witness:
  "\<exists>T' P'. trace_particle (Suc (Suc (Suc 0))) flight_times flight_pos zero_field flight_bounds (dec 1 5)
             = Some (3, T', P') \<and>
           \<not> in_bounds flight_bounds (row6 P' 2) \<and>
           in_bounds flight_bounds (row6 P' 0) \<and> in_bounds flight_bounds (row6 P' 1) \<and>
           accepted_from zero_field (dec 1 5) T' P' 1 \<and> accepted_from zero_field (dec 1 5) T' P' 2"
proof -
  from flight_run obtain T' P' where
    run: "trace_particle (Suc (Suc (Suc 0))) flight_times flight_pos zero_field flight_bounds (dec 1 5)
            = Some (3, T', P')"
    by blast
  from trace_particle_termination[THEN conjunct2, THEN conjunct2, rule_format, OF run]
  have "3 = TRACING_BLOCK_SIZE \<or> \<not> in_bounds flight_bounds (row6 P' (3 - 1))"
    and ib: "\<And>i. i + 1 < (3::nat) \<Longrightarrow> in_bounds flight_bounds (row6 P' i)"
    and af: "\<And>n. 1 \<le> n \<and> n < (3::nat) \<Longrightarrow> accepted_from zero_field (dec 1 5) T' P' n"
    by blast+
  then have "\<not> in_bounds flight_bounds (row6 P' 2)"
    by (simp add: TRACING_BLOCK_SIZE_def)
  moreover have "in_bounds flight_bounds (row6 P' 0)" "in_bounds flight_bounds (row6 P' 1)"
    by (rule ib, simp)+
  moreover have "accepted_from zero_field (dec 1 5) T' P' 1" "accepted_from zero_field (dec 1 5) T' P' 2"
    by (rule af, simp)+
  ultimately show ?thesis using run by blast
qed

subsection \<open>What the call reads and writes\<close>

lemma accept_N: "st_N (accept s k) = st_N s + 1"
  by (simp add: accept_def Let_def)

lemma accept_h: "st_h (accept s k) = st_h s"
  by (simp add: accept_def Let_def)

lemma accept_pos_frame:
  assumes "a < 6 * st_N s \<or> 6 * (st_N s + 1) \<le> a"
  shows "st_pos (accept s k) a = st_pos s a"
proof -
  from assms have "a < 6 * st_N s \<or> 6 * st_N s + 6 \<le> a" by arith
  then show ?thesis by (simp add: accept_def Let_def store_row6_frame)
qed

lemma accept_times_frame: "n \<noteq> st_N s \<Longrightarrow> st_times (accept s k) n = st_times s n"
  by (simp add: accept_def Let_def)

lemma frame_ok_refl: "frame_ok s s"
  by (simp add: frame_ok_def)

lemma frame_ok_h: "frame_ok s (s\<lparr>st_h := h'\<rparr>)"
  by (simp add: frame_ok_def)

lemma frame_ok_accept: "frame_ok s (accept s k)"
  unfolding frame_ok_def
proof (intro conjI allI impI)
  show "st_N s \<le> st_N (accept s k)" by (simp add: accept_N)
next
  fix a assume "a < 6 * st_N s \<or> 6 * st_N (accept s k) \<le> a"
  then show "st_pos (accept s k) a = st_pos s a" by (simp add: accept_N accept_pos_frame)
next
  fix n assume "n < st_N s \<or> st_N (accept s k) \<le> n"
  then have "n \<noteq> st_N s" by (auto simp: accept_N)
  then show "st_times (accept s k) n = st_times s n" by (rule accept_times_frame)
qed

lemma frame_ok_accept_h: "frame_ok s (accept s k\<lparr>st_h := h'\<rparr>)"
  using frame_ok_accept[of s k] by (simp add: frame_ok_def)

lemma frame_ok_trans:
  assumes "frame_ok s t" "frame_ok t r"
  shows "frame_ok s r"
  unfolding frame_ok_def
proof (intro conjI allI impI)
  from assms show N: "st_N s \<le> st_N r" by (simp add: frame_ok_def)
next
  fix a assume a: "a < 6 * st_N s \<or> 6 * st_N r \<le> a"
  from assms have le: "st_N s \<le> st_N t" "st_N t \<le> st_N r" by (simp_all add: frame_ok_def)
  with a have 1: "a < 6 * st_N t \<or> 6 * st_N r \<le> a" and 2: "a < 6 * st_N s \<or> 6 * st_N t \<le> a"
    by arith+
  from assms(2) 1 have "st_pos r a = st_pos t a" unfolding frame_ok_def by blast
  moreover from assms(1) 2 have "st_pos t a = st_pos s a" unfolding frame_ok_def by blast
  ultimately show "st_pos r a = st_pos s a" by simp
next
  fix n assume n: "n < st_N s \<or> st_N r \<le> n"
  from assms have le: "st_N s \<le> st_N t" "st_N t \<le> st_N r" by (simp_all add: frame_ok_def)
  with n have 1: "n < st_N t \<or> st_N r \<le> n" and 2: "n < st_N s \<or> st_N t \<le> n" by arith+
  from assms(2) 1 have "st_times r n = st_times t n" unfolding frame_ok_def by blast
  moreover from assms(1) 2 have "st_times t n = st_times s n" unfolding frame_ok_def by blast
  ultimately show "st_times r n = st_times s n" by simp
qed

lemma trace_loop_frame:
  "trace_loop fuel field bounds atol hmax s = Some r \<Longrightarrow> frame_ok s r"
proof (induction fuel arbitrary: s)
  case 0
  then show ?case by simp
next
  case (Suc fuel)
  show ?case
  proof (cases "in_bounds bounds (st_y s)")
    case False
    with Suc.prems show ?thesis by (simp add: frame_ok_refl)
  next
    case inb: True
    obtain out where out: "trace_body field atol hmax s = out" by simp
    from out show ?thesis
    proof (cases rule: trace_body_cases)
      case ret
      with inb Suc.prems out have "r = accept s (rk_stages field (st_y s) (st_h s))" by simp
      then show ?thesis by (simp only: frame_ok_accept)
    next
      case (acc h')
      with inb Suc.prems out have "trace_loop fuel field bounds atol hmax
         (accept s (rk_stages field (st_y s) (st_h s))\<lparr>st_h := h'\<rparr>) = Some r" by simp
      from frame_ok_trans[OF frame_ok_accept_h Suc.IH[OF this]] show ?thesis .
    next
      case (rej h')
      with inb Suc.prems out have "trace_loop fuel field bounds atol hmax (s\<lparr>st_h := h'\<rparr>) = Some r"
        by simp
      from frame_ok_trans[OF frame_ok_h Suc.IH[OF this]] show ?thesis .
    qed
  qed
qed

lemma agree_h: "agree s t \<Longrightarrow> agree (s\<lparr>st_h := h'\<rparr>) (t\<lparr>st_h := h'\<rparr>)"
  by (simp add: agree_def)

lemma agree_accept:
  assumes "agree s t" "1 \<le> st_N s"
  shows "agree (accept s k) (accept t k)"
proof -
  from assms have eq: "st_y s = st_y t" "st_h s = st_h t" "st_N s = st_N t"
    and P: "\<And>a. a < 6 * st_N s \<Longrightarrow> st_pos s a = st_pos t a"
    and T: "\<And>n. n < st_N s \<Longrightarrow> st_times s n = st_times t n"
    by (auto simp: agree_def)
  have "st_pos (accept s k) a = st_pos (accept t k) a" if "a < 6 * (st_N s + 1)" for a
  proof (cases "a < 6 * st_N s")
    case True
    then show ?thesis using P eq by (simp add: accept_pos_frame)
  next
    case False
    with that obtain i where i: "i < 6" "a = 6 * st_N s + i"
      by (metis add_diff_inverse_nat add_mult_distrib2 mult.right_neutral nat_add_left_cancel_less)
    then show ?thesis using eq by (simp add: accept_def Let_def store_row6_at)
  qed
  moreover have "st_times (accept s k) n = st_times (accept t k) n" if "n < st_N s + 1" for n
  proof (cases "n = st_N s")
    case True
    from assms(2) have "st_N s - 1 < st_N s" by arith
    from T[OF this] True eq show ?thesis by (simp add: accept_def Let_def)
  next
    case False
    with that have "n < st_N s" by arith
    with T False eq show ?thesis by (simp add: accept_times_frame)
  qed
  ultimately show ?thesis using eq
    unfolding agree_def by (simp add: accept_fields accept_h)
qed

lemma trace_loop_agree:
  "trace_loop fuel field bounds atol hmax s = Some r \<Longrightarrow> agree s t \<Longrightarrow> 1 \<le> st_N s \<Longrightarrow>
   \<exists>r'. trace_loop fuel field bounds atol hmax t = Some r' \<and> agree r r'"
proof (induction fuel arbitrary: s t)
  case 0
  then show ?case by simp
next
  case (Suc fuel)
  let ?k = "rk_stages field (st_y s) (st_h s)"
  from Suc.prems(2) have eq: "st_y t = st_y s" "st_h t = st_h s" "st_N t = st_N s"
    by (simp_all add: agree_def)
  show ?case
  proof (cases "in_bounds bounds (st_y s)")
    case False
    with Suc.prems eq show ?thesis by simp
  next
    case inb: True
    obtain out where out: "trace_body field atol hmax s = out" by simp
    from out show ?thesis
    proof (cases rule: trace_body_cases)
      case ret
      with inb Suc.prems out have r: "r = accept s ?k" by simp
      from ret have "trace_body field atol hmax t = Return (accept t ?k)"
        unfolding trace_body_def Let_def eq by (simp add: accept_fields eq)
      with inb eq have "trace_loop (Suc fuel) field bounds atol hmax t = Some (accept t ?k)" by simp
      with r agree_accept[OF Suc.prems(2,3)] show ?thesis by simp
    next
      case (acc h')
      from acc(1,2) have b: "trace_body field atol hmax s =
          Continue (accept s ?k\<lparr>st_h := next_h (st_h s) atol (truncation_error ?k) hmax\<rparr>)"
        unfolding trace_body_def Let_def by (simp add: accept_fields)
      from acc(1,2) have bt: "trace_body field atol hmax t =
          Continue (accept t ?k\<lparr>st_h := next_h (st_h s) atol (truncation_error ?k) hmax\<rparr>)"
        unfolding trace_body_def Let_def eq by (simp add: accept_fields eq)
      from b inb Suc.prems(1) have "trace_loop fuel field bounds atol hmax
          (accept s ?k\<lparr>st_h := next_h (st_h s) atol (truncation_error ?k) hmax\<rparr>) = Some r" by simp
      from Suc.IH[OF this agree_h[OF agree_accept[OF Suc.prems(2,3)]]]
      obtain r' where "trace_loop fuel field bounds atol hmax
          (accept t ?k\<lparr>st_h := next_h (st_h s) atol (truncation_error ?k) hmax\<rparr>) = Some r'" "agree r r'"
        by (auto simp: accept_fields)
      with bt inb eq show ?thesis by simp
    next
      case (rej h')
      from rej(1) have b: "trace_body field atol hmax s =
          Continue (s\<lparr>st_h := next_h (st_h s) atol (truncation_error ?k) hmax\<rparr>)"
        by (rule trace_body_reject)
      from rej(1) have bt: "trace_body field atol hmax t =
          Continue (t\<lparr>st_h := next_h (st_h s) atol (truncation_error ?k) hmax\<rparr>)"
        using trace_body_reject[of field t atol hmax] by (simp add: eq)
      from b inb Suc.prems(1) have "trace_loop fuel field bounds atol hmax
          (s\<lparr>st_h := next_h (st_h s) atol (truncation_error ?k) hmax\<rparr>) = Some r" by simp
      from Suc.IH[OF this agree_h[OF Suc.prems(2)]] Suc.prems(3)
      obtain r' where "trace_loop fuel field bounds atol hmax
          (t\<lparr>st_h := next_h (st_h s) atol (truncation_error ?k) hmax\<rparr>) = Some r'" "agree r r'"
        by auto
      with bt inb eq show ?thesis by simp
    qed
  qed
qed

lemma trace_init_agree:
  assumes "\<forall>a. a < 6 \<longrightarrow> Q a = P a" and "U 0 = T 0"
  shows "agree (trace_init T P) (trace_init U Q)"
proof -
  from assms(1) have "row6 Q 0 = row6 P 0" by (simp add: row6_def)
  with assms show ?thesis by (simp add: agree_def trace_init_def Let_def)
qed

text \<open>
  Claim C10. When \<^verbatim>\<open>trace_particle\<close> returns \<open>N\<close>, the entries of index 0 (the six numbers
  \<^verbatim>\<open>positions[0][0..5]\<close> and \<^verbatim>\<open>times[0]\<close>) hold what the caller supplied, and so does
  every entry of index \<open>N\<close> and above: only rows \<open>1 .. N - 1\<close> of the two arrays are
  written. The call reads nothing but the entries of index 0: on arrays that agree with the
  caller's at index 0 it returns the same \<open>N\<close> and the same rows below \<open>N\<close>.
\<close>

theorem trace_particle_frame:
  "(trace_particle fuel T P field bounds atol = Some (N, T', P') \<longrightarrow>
      (\<forall>a. a < 6 \<or> 6 * N \<le> a \<longrightarrow> P' a = P a) \<and>
      (\<forall>n. n = 0 \<or> N \<le> n \<longrightarrow> T' n = T n)) \<and>
   ((\<forall>a. a < 6 \<longrightarrow> Q a = P a) \<and> U 0 = T 0 \<and>
    trace_particle fuel T P field bounds atol = Some (N, T', P') \<longrightarrow>
      (\<exists>U' Q'. trace_particle fuel U Q field bounds atol = Some (N, U', Q') \<and>
               (\<forall>a. a < 6 * N \<longrightarrow> Q' a = P' a) \<and> (\<forall>n. n < N \<longrightarrow> U' n = T' n)))"
proof (intro conjI impI)
  assume run: "trace_particle fuel T P field bounds atol = Some (N, T', P')"
  let ?s0 = "trace_init T P"
  from run obtain r where r: "trace_loop fuel field bounds atol (st_h ?s0) ?s0 = Some r"
    and eq: "N = st_N r" "T' = st_times r" "P' = st_pos r"
    by (auto simp: trace_particle_def Let_def)
  have s0: "st_N ?s0 = 1" "st_pos ?s0 = P" "st_times ?s0 = T"
    by (simp_all add: trace_init_def Let_def)
  from trace_loop_frame[OF r]
  have P: "\<And>a. a < 6 * 1 \<or> 6 * st_N r \<le> a \<Longrightarrow> st_pos r a = P a"
    and T: "\<And>n. n < 1 \<or> st_N r \<le> n \<Longrightarrow> st_times r n = T n"
    unfolding frame_ok_def s0 by blast+
  show "\<forall>a. a < 6 \<or> 6 * N \<le> a \<longrightarrow> P' a = P a"
    using P by (simp add: eq)
  show "\<forall>n. n = 0 \<or> N \<le> n \<longrightarrow> T' n = T n"
    using T by (simp add: eq)
next
  assume a: "(\<forall>a. a < 6 \<longrightarrow> Q a = P a) \<and> U 0 = T 0 \<and>
    trace_particle fuel T P field bounds atol = Some (N, T', P')"
  let ?s0 = "trace_init T P" and ?t0 = "trace_init U Q"
  from a obtain r where r: "trace_loop fuel field bounds atol (st_h ?s0) ?s0 = Some r"
    and eq: "N = st_N r" "T' = st_times r" "P' = st_pos r"
    by (auto simp: trace_particle_def Let_def)
  from a have ag: "agree ?s0 ?t0" by (intro trace_init_agree) simp_all
  then have h: "st_h ?t0 = st_h ?s0" by (simp add: agree_def)
  have "1 \<le> st_N ?s0" by (simp add: trace_init_def Let_def)
  from trace_loop_agree[OF r ag this] obtain r' where
    r': "trace_loop fuel field bounds atol (st_h ?s0) ?t0 = Some r'" and "agree r r'" by blast
  then have "trace_particle fuel U Q field bounds atol = Some (N, st_times r', st_pos r')"
    and "\<forall>a. a < 6 * N \<longrightarrow> st_pos r' a = P' a" and "\<forall>n. n < N \<longrightarrow> st_times r' n = T' n"
    by (simp_all add: trace_particle_def Let_def h eq agree_def)
  then show "\<exists>U' Q'. trace_particle fuel U Q field bounds atol = Some (N, U', Q') \<and>
               (\<forall>a. a < 6 * N \<longrightarrow> Q' a = P' a) \<and> (\<forall>n. n < N \<longrightarrow> U' n = T' n)"
    by blast
qed

text \<open>
  In the free flight that returns 3, the initial state and time and the entries of row 3
  are the caller's.
\<close>

theorem trace_particle_frame_witness:
  "\<exists>T' P'. trace_particle (Suc (Suc (Suc 0))) flight_times flight_pos zero_field flight_bounds (dec 1 5)
             = Some (3, T', P') \<and>
           P' 0 = flight_pos 0 \<and> P' 5 = flight_pos 5 \<and> T' 0 = flight_times 0 \<and>
           P' 18 = flight_pos 18 \<and> T' 3 = flight_times 3"
proof -
  from flight_run obtain T' P' where
    run: "trace_particle (Suc (Suc (Suc 0))) flight_times flight_pos zero_field flight_bounds (dec 1 5)
            = Some (3, T', P')"
    by blast
  from trace_particle_frame[THEN conjunct1, rule_format, OF run]
  have P: "\<And>a. a < 6 \<or> 6 * 3 \<le> a \<Longrightarrow> P' a = flight_pos a"
    and T: "\<And>n. n = 0 \<or> 3 \<le> n \<Longrightarrow> T' n = flight_times n"
    by blast+
  have "P' 0 = flight_pos 0" "P' 5 = flight_pos 5" "P' 18 = flight_pos 18"
    by (rule P, simp)+
  moreover have "T' 0 = flight_times 0" "T' 3 = flight_times 3"
    by (rule T, simp)+
  ultimately show ?thesis using run by blast
qed

section \<open>Rounding to binary64: properties\<close>

lemma binade_eq:
  assumes "2 powi e \<le> \<bar>x\<bar>" "\<bar>x\<bar> < 2 powi (e + 1)" "- 1022 \<le> e"
  shows "binade x = e"
proof -
  have "0 < (2 :: real) powi e" by simp
  with assms(1) have pos: "0 < \<bar>x\<bar>" by linarith
  have "2 powr (of_int e) \<le> \<bar>x\<bar>"
    using assms(1) by (simp add: powr_real_of_int')
  then have a: "of_int e \<le> log 2 \<bar>x\<bar>"
    using pos by (simp add: le_log_iff)
  have "\<bar>x\<bar> < 2 powr (of_int (e + 1))"
    using assms(2) by (simp add: powr_real_of_int' del: of_int_add)
  then have b: "log 2 \<bar>x\<bar> < of_int e + 1"
    using pos by (simp add: log_less_iff)
  from a b have "\<lfloor>log 2 \<bar>x\<bar>\<rfloor> = e"
    by (rule floor_unique)
  with assms(3) show ?thesis by (simp add: binade_def)
qed

text \<open>
  How a rounding is computed: for \<open>x\<close> in the binade \<open>e\<close> the result is \<open>n * 2^(e-52)\<close> with
  \<open>n\<close> the integer nearest to \<open>x / 2^(e-52)\<close>.
\<close>

lemma round64_eval:
  assumes "2 powi e \<le> \<bar>x\<bar>" "\<bar>x\<bar> < 2 powi (e + 1)" "- 1022 \<le> e"
    and "round_even (x / 2 powi (e - 52)) = n"
    and "\<bar>of_int n * 2 powi (e - 52)\<bar> < (2 ^ 1024 :: real)"
  shows "round64 x = Fin (of_int n * 2 powi (e - 52))"
proof -
  have "0 < (2 :: real) powi e" by simp
  with assms(1) have "0 < \<bar>x\<bar>" by linarith
  then have "x \<noteq> 0" by simp
  moreover have "binade x = e"
    using assms(1-3) by (rule binade_eq)
  ultimately show ?thesis
    using assms(4,5) by (simp add: round64_def Let_def)
qed

lemma round64_zero: "round64 0 = Fin 0"
  by (simp add: round64_def)

lemma round64_half: "round64 (1 / 2) = Fin (1 / 2)"
  using round64_eval[of "- 1" "1 / 2" "2 ^ 52"]
  by (simp add: round_even_def power_int_minus)

lemma round64_one: "round64 1 = Fin 1"
  using round64_eval[of 0 1 "2 ^ 52"]
  by (simp add: round_even_def power_int_minus)

section \<open>Expansion-based evaluators: properties\<close>

lemma dpow_numeral: "dpow (Fin a) (Fin (numeral n)) = Fin (a ^ numeral n)"
  by (simp add: is_int_def)

lemma upt9: "[0..<9] = [0, 1, 2, 3, 4, 5, 6, 7, 8]"
  by (simp add: upt_rec)

lemma less9_cases:
  "i < 9 \<Longrightarrow> i = 0 \<or> i = 1 \<or> i = 2 \<or> i = 3 \<or> i = 4 \<or> i = 5 \<or> i = 6 \<or> i = 7 \<or> i = (8::nat)"
  by arith

lemma is_fin_conv: "is_fin x \<Longrightarrow> x = Fin (fin_val x)"
  by (cases x) auto

lemma quintic_fin:
  assumes "\<forall>c<6. is_fin (coeff_p (54 * index + 6 * i + c))"
  shows "quintic coeff_p index (Fin d) i =
         Fin (quintic_spec (\<lambda>c. fin_val (coeff_p (54 * index + 6 * i + c))) d)"
proof -
  have f: "is_fin (coeff_p (54 * index + 6 * i + c))" if "c < 6" for c
    using assms that by blast
  have "is_fin (coeff_p (54 * index + 6 * i + 0))" "is_fin (coeff_p (54 * index + 6 * i + 1))"
    "is_fin (coeff_p (54 * index + 6 * i + 2))" "is_fin (coeff_p (54 * index + 6 * i + 3))"
    "is_fin (coeff_p (54 * index + 6 * i + 4))" "is_fin (coeff_p (54 * index + 6 * i + 5))"
    by (rule f, simp)+
  then show ?thesis
    by (elim is_finE) (simp del: dpow.simps add: dpow_numeral quintic_def quintic_spec_def Let_def)
qed

text \<open>
  The literal \<^verbatim>\<open>0.1\<close> is the binary64 value \<open>7205759403792794 / 2^56\<close>, slightly above one
  tenth; five times it rounds to \<open>1/2\<close>, ten times it to 1, and \<open>1/2\<close> divided by it to 5.
\<close>

lemma b64_tenth: "b64 1 1 = Fin (7205759403792794 / 2 ^ 56)"
  using round64_eval[of "- 4" "1 / 10" 7205759403792794]
  by (simp add: b64_def dec_def round_even_def power_int_minus)

lemma round64_tenth: "round64 (7205759403792794 / 2 ^ 56) = Fin (7205759403792794 / 2 ^ 56)"
  using round64_eval[of "- 4" "7205759403792794 / 2 ^ 56" 7205759403792794]
  by (simp add: round_even_def power_int_minus)

lemma round64_five_tenths: "round64 (5 * (7205759403792794 / 2 ^ 56)) = Fin (1 / 2)"
  using round64_eval[of "- 1" "5 * (7205759403792794 / 2 ^ 56)" "2 ^ 52"]
  by (simp add: round_even_def power_int_minus)

lemma round64_ten_tenths: "round64 (10 * (7205759403792794 / 2 ^ 56)) = Fin 1"
  using round64_eval[of 0 "10 * (7205759403792794 / 2 ^ 56)" "2 ^ 52"]
  by (simp add: round_even_def power_int_minus)

lemma round64_half_by_tenth: "round64 (1 / 2 / (7205759403792794 / 2 ^ 56)) = Fin 5"
  using round64_eval[of 2 "1 / 2 / (7205759403792794 / 2 ^ 56)" "5 * 2 ^ 50"]
  by (simp add: round_even_def power_int_minus)

lemma z_index_less:
  assumes "z_index z_inter N_z z = Inr index"
  shows "index < N_z"
  using assms unfolding z_index_def Let_def fault_bind_def
  by (auto split: sum.splits if_splits)

lemma z_index_unit_grid: "z_index unit_grid 3 (Fin (1 / 2)) = Inr 0"
  by (simp add: z_index_def unit_grid_def dsub_def round64_half round64_one fault_bind_def
      INT_MAX_def)

lemma tenth_grid_vals:
  shows "tenth_grid 0 = Fin 0" and "tenth_grid 1 = Fin (7205759403792794 / 2 ^ 56)"
    and "tenth_grid 5 = Fin (1 / 2)" and "tenth_grid 10 = Fin 1"
proof -
  show "tenth_grid 0 = Fin 0"
    unfolding tenth_grid_def of_c_int_def b64_tenth by (simp add: round64_zero)
  show "tenth_grid 1 = Fin (7205759403792794 / 2 ^ 56)"
    unfolding tenth_grid_def of_c_int_def b64_tenth using round64_tenth by simp
  show "tenth_grid 5 = Fin (1 / 2)"
    unfolding tenth_grid_def of_c_int_def b64_tenth using round64_five_tenths by simp
  show "tenth_grid 10 = Fin 1"
    unfolding tenth_grid_def of_c_int_def b64_tenth using round64_ten_tenths by simp
qed

lemma z_index_tenth_grid: "z_index tenth_grid 11 (Fin (1 / 2)) = Inr 5"
proof -
  have dz: "rd (dsub (tenth_grid 1) (tenth_grid 0)) = Fin (7205759403792794 / 2 ^ 56)"
    unfolding tenth_grid_vals using round64_tenth by (simp add: dsub_def)
  have dd: "rd (dsub (Fin (1 / 2)) (tenth_grid 0)) = Fin (1 / 2)"
    unfolding tenth_grid_vals by (simp add: dsub_def round64_half)
  have q: "rd (ddiv (Fin (1 / 2)) (Fin (7205759403792794 / 2 ^ 56))) = Fin 5"
    using round64_half_by_tenth by simp
  show ?thesis
    unfolding z_index_def Let_def dz dd q by (simp add: fault_bind_def INT_MAX_def)
qed

text \<open>
  Claim C8. For a point \<open>(r, z)\<close> with \<open>z\<close> strictly inside the grid and finite table entries:
  with \<open>index\<close> the interval that \<^verbatim>\<open>field_radial_derivs\<close> locates,
  \<^verbatim>\<open>(int) ((z - z0)/dz)\<close>, it takes for \<open>D 0 .. D 8\<close> the values at \<open>z - z_grid[index]\<close> of the
  nine quintics with the six coefficients \<^verbatim>\<open>coeff[index][i][0..5]\<close>, and writes
  \<open>E_r = r/2 * (D 2 - r^2/8 * D 4 + r^4/192 * D 6 - r^6/9216 * D 8)\<close>,
  \<open>E_z = - D 1 + r^2/4 * D 3 - r^4/64 * D 5 + r^6/2304 * D 7\<close> and \<open>E_phi = 0\<close>; at \<open>r = 0\<close>
  the field is \<open>(0, - D 1, 0)\<close>.
\<close>

theorem field_radial_derivs_expansion:
  assumes pt: "point ! 0 = Fin r" "point ! 1 = Fin z"
    and rng: "dlt (z_inter 0) (point ! 1)" "dlt (point ! 1) (z_inter (N_z - 1))"
    and idx: "z_index z_inter N_z (point ! 1) = Inr index"
    and zi: "z_inter index = Fin zi"
    and fin: "\<forall>i<9. \<forall>c<6. is_fin (coeff_p (54 * index + 6 * i + c))"
    and D: "D = (\<lambda>i. quintic_spec (\<lambda>c. fin_val (coeff_p (54 * index + 6 * i + c))) (z - zi))"
  shows "field_radial_derivs point z_inter coeff_p N_z =
           Inr [Fin (r / 2 * (D 2 - r ^ 2 / 8 * D 4 + r ^ 4 / 192 * D 6 - r ^ 6 / 9216 * D 8)),
                Fin (- D 1 + r ^ 2 / 4 * D 3 - r ^ 4 / 64 * D 5 + r ^ 6 / 2304 * D 7),
                Fin 0] \<and>
         (r = 0 \<longrightarrow> field_radial_derivs point z_inter coeff_p N_z = Inr [Fin 0, Fin (- D 1), Fin 0])"
proof -
  from z_index_less[OF idx] have nz: "N_z \<noteq> 0" by simp
  from rng have oor: "\<not> out_of_range z_inter N_z (point ! 1)"
    by (simp add: out_of_range_def)
  note ix = idx
  have q: "quintic coeff_p index (Fin (z - zi)) i = Fin (D i)" if "i < 9" for i
    unfolding D using fin that by (intro quintic_fin) blast
  have m: "map (quintic coeff_p index (dsub (point ! 1) (z_inter index))) [0..<DERIV_2D_MAX]
      = map (\<lambda>i. Fin (D i)) [0..<9]"
    unfolding DERIV_2D_MAX_def pt zi by (rule map_cong) (simp_all add: dsub_def q)
  have main: "field_radial_derivs point z_inter coeff_p N_z =
           Inr [Fin (r / 2 * (D 2 - r ^ 2 / 8 * D 4 + r ^ 4 / 192 * D 6 - r ^ 6 / 9216 * D 8)),
                Fin (- D 1 + r ^ 2 / 4 * D 3 - r ^ 4 / 64 * D 5 + r ^ 6 / 2304 * D 7),
                Fin 0]"
    unfolding field_radial_derivs_def Let_def
    apply (simp only: nz oor ix fault_bind_def sum.case if_False)
    apply (simp only: m)
    apply (simp del: dpow.simps add: dpow_numeral pt upt9 dsub_def)
    done
  then show ?thesis by simp
qed

text \<open>
  On the grid \<open>0, 1, 2\<close> with table entry \<open>a\<close> equal to \<open>a\<close>, at \<open>z = 1/2\<close> the interval is 0: on
  the axis the field is \<open>(0, - D 1, 0)\<close> with \<open>D 1 = 159/8\<close>, and at \<open>r = 2\<close> it is
  \<open>(7601/768, 899/96, 0)\<close>. On the grid of the eleven binary64 values \<open>i * 0.1\<close>, at \<open>z = 1/2\<close>
  the rounded quotient is 5, the interval is 5 and \<open>z - z_grid[5] = 0\<close>: on the axis the field
  is \<open>(0, -281, 0)\<close>.
\<close>

theorem field_radial_derivs_expansion_witness:
  "field_radial_derivs [Fin 0, Fin (1 / 2), Fin 0] unit_grid ramp_coeffs 3
     = Inr [Fin 0, Fin (- 159 / 8), Fin 0] \<and>
   field_radial_derivs [Fin 2, Fin (1 / 2), Fin 0] unit_grid ramp_coeffs 3
     = Inr [Fin (7601 / 768), Fin (899 / 96), Fin 0] \<and>
   field_radial_derivs [Fin 0, Fin (1 / 2), Fin 0] tenth_grid ramp_coeffs 11
     = Inr [Fin 0, Fin (- 281), Fin 0]"
proof -
  have a: "field_radial_derivs [Fin r, Fin (1 / 2), Fin 0] unit_grid ramp_coeffs 3 =
      Inr [Fin (r / 2 * (D 2 - r ^ 2 / 8 * D 4 + r ^ 4 / 192 * D 6 - r ^ 6 / 9216 * D 8)),
           Fin (- D 1 + r ^ 2 / 4 * D 3 - r ^ 4 / 64 * D 5 + r ^ 6 / 2304 * D 7),
           Fin 0]"
    if "D = (\<lambda>i. quintic_spec (\<lambda>c. fin_val (ramp_coeffs (54 * 0 + 6 * i + c))) (1 / 2 - 0))"
    for r D
    using field_radial_derivs_expansion[of "[Fin r, Fin (1 / 2), Fin 0]" r "1 / 2" unit_grid
        3 0 0 ramp_coeffs D] that z_index_unit_grid
    by (simp add: unit_grid_def ramp_coeffs_def)
  have b: "field_radial_derivs [Fin 0, Fin (1 / 2), Fin 0] tenth_grid ramp_coeffs 11 =
      Inr [Fin 0, Fin (- D 1), Fin 0]"
    if "D = (\<lambda>i. quintic_spec (\<lambda>c. fin_val (ramp_coeffs (54 * 5 + 6 * i + c))) (1 / 2 - 1 / 2))"
    for D
    using field_radial_derivs_expansion[of "[Fin 0, Fin (1 / 2), Fin 0]" 0 "1 / 2" tenth_grid
        11 5 "1 / 2" ramp_coeffs D] that z_index_tenth_grid
    by (simp add: tenth_grid_vals ramp_coeffs_def)
  show ?thesis
    using a[of _ 0, OF refl] a[of _ 2, OF refl] b[OF refl]
    by (simp add: quintic_spec_def ramp_coeffs_def power_divide)
qed

text \<open>
  Claim C5. When the \<open>z\<close> coordinate of the point is not strictly between \<^verbatim>\<open>z_grid[0]\<close> and
  \<^verbatim>\<open>z_grid[N_z - 1]\<close> (of a grid with at least one entry), \<^verbatim>\<open>potential_radial_derivs\<close>
  returns 0, and \<^verbatim>\<open>field_radial_derivs\<close> and \<^verbatim>\<open>field_3d_derivs\<close> write the zero vector;
  none of them ends in a fault. The radial evaluators take \<open>z\<close> from \<^verbatim>\<open>point[1]\<close>, the 3D
  evaluator from \<^verbatim>\<open>point[2]\<close>.
\<close>

theorem expansion_evaluators_out_of_range:
  "(0 < N_z \<and> \<not> (dlt (z_inter 0) (point ! 1) \<and> dlt (point ! 1) (z_inter (N_z - 1))) \<longrightarrow>
      potential_radial_derivs point z_inter coeff_p N_z = Inr (Fin 0) \<and>
      field_radial_derivs point z_inter coeff_p N_z = Inr [Fin 0, Fin 0, Fin 0]) \<and>
   (0 < N_z \<and> \<not> (dlt (z_inter 0) (point ! 2) \<and> dlt (point ! 2) (z_inter (N_z - 1))) \<longrightarrow>
      field_3d_derivs point z_inter coeffs_p N_z = Inr [Fin 0, Fin 0, Fin 0])"
  by (simp add: potential_radial_derivs_def field_radial_derivs_def field_3d_derivs_def
      out_of_range_def Let_def)

text \<open>On the grid \<open>0, 1, 2\<close> the point \<open>(1, 5, 7)\<close> is out of range for all three.\<close>

theorem expansion_evaluators_out_of_range_witness:
  "potential_radial_derivs [Fin 1, Fin 5, Fin 7] unit_grid ramp_coeffs 3 = Inr (Fin 0) \<and>
   field_radial_derivs [Fin 1, Fin 5, Fin 7] unit_grid ramp_coeffs 3 = Inr [Fin 0, Fin 0, Fin 0] \<and>
   field_3d_derivs [Fin 1, Fin 5, Fin 7] unit_grid ramp_coeffs 3 = Inr [Fin 0, Fin 0, Fin 0]"
  using expansion_evaluators_out_of_range[of 3 unit_grid "[Fin 1, Fin 5, Fin 7]" ramp_coeffs ramp_coeffs]
  by (simp add: unit_grid_def)

section \<open>Plane intersection: properties\<close>

lemma dfabs_ddiv: "dfabs (ddiv a b) = ddiv (dfabs a) (dfabs b)"
  by (cases a; cases b) auto

lemma straddles_fin:
  "straddles (Fin a) (Fin b) (Fin z) = (min a b \<le> z \<and> z \<le> max a b)"
  by (auto simp: straddles_def fmin_def fmax_def)

lemma plane_walk_none:
  "(\<forall>j. 1 \<le> j \<and> j \<le> n \<longrightarrow> \<not> straddles (p (w * (j - 1) + zi)) (p (w * j + zi)) z) \<Longrightarrow>
   plane_walk w zi p z n = None"
proof (induction n)
  case 0
  then show ?case by simp
next
  case (Suc n)
  have "\<not> straddles (p (w * (Suc n - 1) + zi)) (p (w * Suc n + zi)) z"
    using Suc.prems[rule_format, of "Suc n"] by simp
  moreover from Suc.prems have "plane_walk w zi p z n = None" by (intro Suc.IH) simp
  ultimately show ?case by simp
qed

lemma plane_walk_first:
  "1 \<le> i \<Longrightarrow> i \<le> n \<Longrightarrow> straddles (p (w * (i - 1) + zi)) (p (w * i + zi)) z \<Longrightarrow>
   (\<forall>j. i < j \<and> j \<le> n \<longrightarrow> \<not> straddles (p (w * (j - 1) + zi)) (p (w * j + zi)) z) \<Longrightarrow>
   plane_walk w zi p z n = Some (interpolate w zi p z i)"
proof (induction n)
  case 0
  then show ?case by simp
next
  case (Suc n)
  show ?case
  proof (cases "i = Suc n")
    case True
    with Suc.prems(3) show ?thesis by simp
  next
    case False
    with Suc.prems have le: "i \<le> n" by simp
    then have ns: "\<not> straddles (p (w * (Suc n - 1) + zi)) (p (w * Suc n + zi)) z"
      using Suc.prems(4)[rule_format, of "Suc n"] by simp
    from Suc.prems(4) have "\<forall>j. i < j \<and> j \<le> n \<longrightarrow> \<not> straddles (p (w * (j - 1) + zi)) (p (w * j + zi)) z"
      by simp
    with Suc.IH[OF Suc.prems(1) le Suc.prems(3)] ns show ?thesis by simp
  qed
qed

lemma interpolate_spec:
  "interpolate w zi p z i =
     map (\<lambda>k. dadd (p (w * (i - 1) + k))
                 (dmul (ddiv (dfabs (dsub z (p (w * (i - 1) + zi))))
                             (dfabs (dsub (p (w * (i - 1) + zi)) (p (w * i + zi)))))
                       (dsub (p (w * i + k)) (p (w * (i - 1) + k)))))
         [0..<w]"
  by (simp add: interpolate_def Let_def dfabs_ddiv)

lemma interpolate_eq_spec: "interpolate w zi p z i = interp_spec w zi p z i"
  by (simp add: interpolate_def interp_spec_def Let_def dfabs_ddiv)

lemma plane_walk_correct:
  "((\<forall>j. 1 \<le> j \<and> j < N_p \<longrightarrow> \<not> straddles (p (w * (j - 1) + zi)) (p (w * j + zi)) z) \<longrightarrow>
      plane_walk w zi p z (N_p - 1) = None) \<and>
   (1 \<le> i \<and> i < N_p \<and> straddles (p (w * (i - 1) + zi)) (p (w * i + zi)) z \<and>
    (\<forall>j. i < j \<and> j < N_p \<longrightarrow> \<not> straddles (p (w * (j - 1) + zi)) (p (w * j + zi)) z) \<longrightarrow>
      plane_walk w zi p z (N_p - 1) = Some (interp_spec w zi p z i))"
proof (intro conjI impI)
  assume "\<forall>j. 1 \<le> j \<and> j < N_p \<longrightarrow> \<not> straddles (p (w * (j - 1) + zi)) (p (w * j + zi)) z"
  then have "\<forall>j. 1 \<le> j \<and> j \<le> N_p - 1 \<longrightarrow> \<not> straddles (p (w * (j - 1) + zi)) (p (w * j + zi)) z"
    by auto
  then show "plane_walk w zi p z (N_p - 1) = None" by (rule plane_walk_none)
next
  assume a: "1 \<le> i \<and> i < N_p \<and> straddles (p (w * (i - 1) + zi)) (p (w * i + zi)) z \<and>
    (\<forall>j. i < j \<and> j < N_p \<longrightarrow> \<not> straddles (p (w * (j - 1) + zi)) (p (w * j + zi)) z)"
  then have "1 \<le> i" "i \<le> N_p - 1" "straddles (p (w * (i - 1) + zi)) (p (w * i + zi)) z"
    "\<forall>j. i < j \<and> j \<le> N_p - 1 \<longrightarrow> \<not> straddles (p (w * (j - 1) + zi)) (p (w * j + zi)) z"
    by auto
  then have "plane_walk w zi p z (N_p - 1) = Some (interpolate w zi p z i)"
    by (rule plane_walk_first)
  then show "plane_walk w zi p z (N_p - 1) = Some (interp_spec w zi p z i)"
    by (simp only: interpolate_eq_spec)
qed

text \<open>
  Claim C6. \<^verbatim>\<open>xy_plane_intersection_3d\<close> (rows of width 6, \<open>z\<close> in column 2) and
  \<^verbatim>\<open>xy_plane_intersection_2d\<close> (rows of width 4, \<open>z\<close> in column 1) walk back from the last
  state. When no pair of consecutive states straddles the plane they return false. Otherwise,
  for the pair \<open>(i - 1, i)\<close> that straddles it with no straddling pair after it, they return
  true and the vector that interpolates every component of the two states at the fraction
  \<open>|z - z1| / |z1 - z2|\<close>. Two finite values \<open>a\<close>, \<open>b\<close> straddle \<open>c\<close> when
  \<open>min a b <= c <= max a b\<close>.
\<close>

theorem xy_plane_intersection_first_pair:
  "((\<forall>j. 1 \<le> j \<and> j < N_p \<longrightarrow> \<not> straddles (p (6 * (j - 1) + 2)) (p (6 * j + 2)) z) \<longrightarrow>
      xy_plane_intersection_3d p N_p z = None) \<and>
   (1 \<le> i \<and> i < N_p \<and> straddles (p (6 * (i - 1) + 2)) (p (6 * i + 2)) z \<and>
    (\<forall>j. i < j \<and> j < N_p \<longrightarrow> \<not> straddles (p (6 * (j - 1) + 2)) (p (6 * j + 2)) z) \<longrightarrow>
      xy_plane_intersection_3d p N_p z = Some (interp_spec 6 2 p z i)) \<and>
   ((\<forall>j. 1 \<le> j \<and> j < N_p \<longrightarrow> \<not> straddles (p (4 * (j - 1) + 1)) (p (4 * j + 1)) z) \<longrightarrow>
      xy_plane_intersection_2d p N_p z = None) \<and>
   (1 \<le> i \<and> i < N_p \<and> straddles (p (4 * (i - 1) + 1)) (p (4 * i + 1)) z \<and>
    (\<forall>j. i < j \<and> j < N_p \<longrightarrow> \<not> straddles (p (4 * (j - 1) + 1)) (p (4 * j + 1)) z) \<longrightarrow>
      xy_plane_intersection_2d p N_p z = Some (interp_spec 4 1 p z i)) \<and>
   straddles (Fin a) (Fin b) (Fin c) = (min a b \<le> c \<and> c \<le> max a b)"
  unfolding xy_plane_intersection_3d_def xy_plane_intersection_2d_def
  using plane_walk_correct[of N_p p 6 2 z i] plane_walk_correct[of N_p p 4 1 z i]
    straddles_fin[of a b c]
  by blast

lemma s5_vals:
  "s5_traj 2 = Fin 0" "s5_traj 8 = Fin (1 / 2)" "s5_traj 14 = Fin (3 / 2)" "s5_traj 20 = Fin (5 / 2)"
  "s5_traj 6 = Fin 1" "s5_traj 12 = Fin 2" "s5_traj 7 = Fin 0" "s5_traj 13 = Fin 0"
  "s5_traj 9 = Fin 0" "s5_traj 15 = Fin 0" "s5_traj 10 = Fin 0" "s5_traj 16 = Fin 0"
  "s5_traj 11 = Fin 0" "s5_traj 17 = Fin 0"
  by (simp_all add: s5_traj_def)

text \<open>
  The plane \<open>z = 1\<close> on the states \<open>z = 0, 1/2, 3/2, 5/2\<close> is met between the second and the
  third, half way: \<open>x = 3/2\<close>.
\<close>

theorem xy_plane_intersection_first_pair_witness:
  "xy_plane_intersection_3d s5_traj 4 (Fin 1) = Some [Fin (3 / 2), Fin 0, Fin 1, Fin 0, Fin 0, Fin 0]"
proof -
  have 1: "straddles (s5_traj (6 * (2 - 1) + 2)) (s5_traj (6 * 2 + 2)) (Fin 1)"
    by (simp add: s5_vals straddles_fin)
  have 2: "\<forall>j. 2 < j \<and> j < 4 \<longrightarrow> \<not> straddles (s5_traj (6 * (j - 1) + 2)) (s5_traj (6 * j + 2)) (Fin 1)"
  proof (intro allI impI)
    fix j :: nat assume "2 < j \<and> j < 4"
    then have "j = 3" by arith
    then show "\<not> straddles (s5_traj (6 * (j - 1) + 2)) (s5_traj (6 * j + 2)) (Fin 1)"
      by (simp add: s5_vals straddles_fin)
  qed
  have "xy_plane_intersection_3d s5_traj 4 (Fin 1) = Some (interp_spec 6 2 s5_traj (Fin 1) 2)"
    using xy_plane_intersection_first_pair[of 4 s5_traj "Fin 1" 2] 1 2 by simp
  also have "interp_spec 6 2 s5_traj (Fin 1) 2 = [Fin (3 / 2), Fin 0, Fin 1, Fin 0, Fin 0, Fin 0]"
    by (simp add: interp_spec_def Let_def upt_rec s5_vals dsub_def)
  finally show ?thesis .
qed


section \<open>Matrix assembly: properties\<close>

lemma for_each_ok:
  "(\<forall>i\<in>set xs. \<forall>s. \<exists>s'. body i s = Inr s') \<Longrightarrow> \<exists>s'. for_each xs body s = Inr s'"
proof (induction xs arbitrary: s)
  case Nil
  then show ?case by simp
next
  case (Cons x xs)
  from Cons.prems have "\<exists>s1. body x s = Inr s1" by simp
  then obtain s1 where "body x s = Inr s1" by blast
  moreover from Cons.prems have "\<exists>s'. for_each xs body s1 = Inr s'" by (intro Cons.IH) simp
  ultimately show ?case by (simp add: fault_bind_def)
qed

lemma for_each_inv:
  "for_each xs body s = Inr s' \<Longrightarrow> I s \<Longrightarrow>
   (\<And>i s s'. i \<in> set xs \<Longrightarrow> I s \<Longrightarrow> body i s = Inr s' \<Longrightarrow> I s') \<Longrightarrow> I s'"
proof (induction xs arbitrary: s)
  case Nil
  then show ?case by simp
next
  case (Cons x xs)
  from Cons.prems(1) obtain s1 where s1: "body x s = Inr s1" "for_each xs body s1 = Inr s'"
    by (auto simp: fault_bind_def split: sum.splits)
  from Cons.prems(3)[OF _ Cons.prems(2) s1(1)] have "I s1" by simp
  with s1(2) show ?case by (rule Cons.IH) (auto intro: Cons.prems(3))
qed

lemma for_each_exit:
  "i \<in> set xs \<Longrightarrow> (\<forall>s. body i s = Inl Exit1) \<Longrightarrow>
   (\<forall>j s e. body j s = Inl e \<longrightarrow> e = Exit1) \<Longrightarrow> for_each xs body s = Inl Exit1"
proof (induction xs arbitrary: s)
  case Nil
  then show ?case by simp
next
  case (Cons x xs)
  show ?case
  proof (cases "body x s")
    case (Inl e)
    with Cons.prems(3) have "e = Exit1" by blast
    with Inl show ?thesis by (simp add: fault_bind_def)
  next
    case (Inr s1)
    with Cons.prems(2) have "x \<noteq> i" by auto
    with Cons.prems(1) have "i \<in> set xs" by simp
    from Cons.IH[OF this Cons.prems(2,3)] Inr show ?thesis by (simp add: fault_bind_def)
  qed
qed

lemma foldl_inv:
  "I s \<Longrightarrow> (\<And>i s. i \<in> set xs \<Longrightarrow> I s \<Longrightarrow> I (f s i)) \<Longrightarrow> I (foldl f s xs)"
  by (induction xs arbitrary: s) auto

lemma legendre_ok: "m < 8 \<Longrightarrow> \<exists>v. legendre (int m) x = Inr v"
  by (simp add: legendre_def Let_def)

lemma legendre_coefficient_ok: "m < 8 \<Longrightarrow> \<exists>v. legendre_coefficient (int m) k = Inr v"
  using legendre_ok[of m "GAUSS_QUAD_POINTS ! k"]
  by (auto simp: legendre_coefficient_def fault_bind_def)

lemma fault_bind_ok:
  "\<exists>v. m = Inr v \<Longrightarrow> (\<And>v. \<exists>u. f v = Inr u) \<Longrightarrow> \<exists>u. fault_bind m f = Inr u"
  by (auto simp: fault_bind_def)

lemma log_side_ok: "\<exists>v. log_side w len k arg pot acc = Inr v"
  unfolding log_side_def
proof (rule for_each_ok, intro ballI allI)
  fix m s assume "m \<in> set [0..<N_QUAD_2D]"
  then have m: "m < 8" by (simp add: N_QUAD_2D_def)
  from legendre_coefficient_ok[OF m, of k] legendre_ok[OF m, of arg]
  show "\<exists>s'. fault_bind (legendre_coefficient (int m) k)
          (\<lambda>lc. fault_bind (legendre (int m) arg)
             (\<lambda>leg. Inr (dadd s (dmul (dmul (dmul (dmul w len) lc) leg) pot)))) = Inr s'"
    by (auto simp: fault_bind_def)
qed

lemma log_integral_ok: "\<exists>v. log_integral line_points_p i l k = Inr v"
  unfolding log_integral_def Let_def
  by (intro for_each_ok ballI allI fault_bind_ok log_side_ok)

lemma fill_self_voltages_ok:
  "\<exists>m. fill_self_voltages matrix line_points_p N_lines N_matrix lines_range_start lines_range_end = Inr m"
  unfolding fill_self_voltages_def
  by (intro for_each_ok ballI allI fault_bind_ok log_integral_ok) simp

lemma fill_matrix_radial_returns:
  assumes "range_ok N_lines lines_range_start lines_range_end" "N_matrix = N_QUAD_2D * N_lines"
  shows "\<exists>m. fill_matrix_radial matrix line_points_p excitation_types excitation_values N_lines N_matrix
            lines_range_start lines_range_end = Inr m"
  unfolding fill_matrix_radial_def using assms fill_self_voltages_ok by simp

text \<open>What the radial assembly leaves alone: an entry outside the written blocks.\<close>

lemma fill_self_voltages_frame:
  assumes "fill_self_voltages matrix line_points_p N_lines N_matrix lines_range_start lines_range_end = Inr m"
    and "\<And>i l k. i \<in> set (row_range lines_range_start lines_range_end) \<Longrightarrow> l < 8 \<Longrightarrow> k < 8 \<Longrightarrow>
           (N_QUAD_2D * i + l) * N_matrix + N_QUAD_2D * i + k \<noteq> a"
  shows "m a = matrix a"
proof -
  let ?I = "\<lambda>m. m a = matrix a"
  have k: "?I s'" if "?I s" "i \<in> set (row_range lines_range_start lines_range_end)" "l < 8"
    "for_each [0..<N_QUAD_2D]
       (\<lambda>k m. fault_bind (log_integral line_points_p i l k)
          (\<lambda>v. Inr (m((N_QUAD_2D * i + l) * N_matrix + N_QUAD_2D * i + k := v)))) s = Inr s'"
    for i l s s'
  proof (rule for_each_inv[OF that(4), of ?I, OF that(1)])
    fix k s s' assume "k \<in> set [0..<N_QUAD_2D]" "s a = matrix a"
      "fault_bind (log_integral line_points_p i l k)
          (\<lambda>v. Inr (s((N_QUAD_2D * i + l) * N_matrix + N_QUAD_2D * i + k := v))) = Inr s'"
    then show "s' a = matrix a"
      using assms(2)[OF that(2,3), of k]
      by (auto simp: fault_bind_def N_QUAD_2D_def split: sum.splits)
  qed
  have l: "?I s'" if "?I s" "i \<in> set (row_range lines_range_start lines_range_end)"
    "for_each [0..<N_QUAD_2D]
       (\<lambda>l. for_each [0..<N_QUAD_2D]
          (\<lambda>k m. fault_bind (log_integral line_points_p i l k)
             (\<lambda>v. Inr (m((N_QUAD_2D * i + l) * N_matrix + N_QUAD_2D * i + k := v))))) s = Inr s'"
    for i s s'
  proof (rule for_each_inv[OF that(3), of ?I, OF that(1)])
    fix l s s' assume "l \<in> set [0..<N_QUAD_2D]" "s a = matrix a"
      "for_each [0..<N_QUAD_2D]
          (\<lambda>k m. fault_bind (log_integral line_points_p i l k)
             (\<lambda>v. Inr (m((N_QUAD_2D * i + l) * N_matrix + N_QUAD_2D * i + k := v)))) s = Inr s'"
    then show "s' a = matrix a"
      using k[of s i l s'] that(2) by (simp add: N_QUAD_2D_def)
  qed
  show ?thesis
    by (rule for_each_inv[OF assms(1)[unfolded fill_self_voltages_def], of ?I]) (simp, rule l)
qed

lemma foldl_frame:
  "(\<And>x m. x \<in> set xs \<Longrightarrow> f m x a = m a) \<Longrightarrow> foldl f m0 xs a = m0 a"
  by (induction xs arbitrary: m0) simp_all

lemma radial_row_frame:
  assumes "\<And>j l k. j < N_lines \<Longrightarrow> j \<noteq> i \<Longrightarrow> l < 8 \<Longrightarrow> k < 8 \<Longrightarrow> is_voltage (excitation_types i) \<Longrightarrow>
           (N_QUAD_2D * i + l) * N_matrix + N_QUAD_2D * j + k \<noteq> a"
  shows "radial_row line_points_p excitation_types N_lines N_matrix i matrix a = matrix a"
proof (cases "is_voltage (excitation_types i)")
  case False
  then show ?thesis by (simp add: radial_row_def)
next
  case True
  have "foldl (\<lambda>m j.
             if i = j then m
             else foldl (\<lambda>m l.
                    foldl (\<lambda>m k.
                       let target_x = sample line_points_p i l 0;
                           target_y = sample line_points_p i l 1;
                           source_x = sample line_points_p j k 0;
                           source_y = sample line_points_p j k 1;
                           weight = ddiv (dmul (GAUSS_QUAD_WEIGHTS ! k) (segment_length line_points_p j))
                                         (Fin 2)
                       in m((N_QUAD_2D * i + l) * N_matrix + N_QUAD_2D * j + k :=
                              dmul weight (potential_radial_ring target_x target_y source_x source_y)))
                      m [0..<N_QUAD_2D])
                  m [0..<N_QUAD_2D])
           matrix [0..<N_lines] a = matrix a"
  proof (rule foldl_frame, simp only: split: if_split, intro conjI impI, rule refl,
      rule foldl_frame, rule foldl_frame)
    fix j m l ma k mb
    assume "j \<in> set [0..<N_lines]" "i \<noteq> j" "l \<in> set [0..<N_QUAD_2D]" "k \<in> set [0..<N_QUAD_2D]"
    then have "(N_QUAD_2D * i + l) * N_matrix + N_QUAD_2D * j + k \<noteq> a"
      using assms[of j l k] True by (simp add: N_QUAD_2D_def)
    then show "(let target_x = sample line_points_p i l 0;
                           target_y = sample line_points_p i l 1;
                           source_x = sample line_points_p j k 0;
                           source_y = sample line_points_p j k 1;
                           weight = ddiv (dmul (GAUSS_QUAD_WEIGHTS ! k) (segment_length line_points_p j))
                                         (Fin 2)
                       in mb((N_QUAD_2D * i + l) * N_matrix + N_QUAD_2D * j + k :=
                              dmul weight (potential_radial_ring target_x target_y source_x source_y))) a
         = mb a"
      by (simp add: Let_def)
  qed
  with True show ?thesis by (simp add: radial_row_def)
qed

lemma row_3d_unknown:
  assumes "\<not> is_voltage (excitation_types i)" "excitation_types i \<noteq> DIELECTRIC"
  shows "row_3d triangle_points_p excitation_types excitation_values N_lines N_matrix i matrix = Inl Exit1"
  using assms by (simp add: row_3d_def Let_def)

lemma row_3d_fault:
  "row_3d triangle_points_p excitation_types excitation_values N_lines N_matrix j s = Inl e \<Longrightarrow> e = Exit1"
  by (simp add: row_3d_def Let_def split: if_splits)

lemma fill_matrix_3d_unknown:
  assumes "range_ok N_lines lines_range_start lines_range_end"
    and "lines_range_start \<le> int i" "int i \<le> lines_range_end"
    and "\<not> is_voltage (excitation_types i)" "excitation_types i \<noteq> DIELECTRIC"
  shows "fill_matrix_3d matrix triangle_points_p excitation_types excitation_values N_lines N_matrix
           lines_range_start lines_range_end = Inl Exit1"
proof -
  from assms(1,2,3) have "i \<in> set (row_range lines_range_start lines_range_end)"
    by (auto simp: row_range_def range_ok_def)
  then have "for_each (row_range lines_range_start lines_range_end)
       (row_3d triangle_points_p excitation_types excitation_values N_lines N_matrix) matrix = Inl Exit1"
    by (rule for_each_exit) (use assms(4,5) row_3d_unknown row_3d_fault in blast)+
  with assms(1) show ?thesis by (simp add: fill_matrix_3d_def)
qed

lemma mixed_tags_0: "\<not> is_voltage (mixed_tags 0)" "mixed_tags 0 \<noteq> DIELECTRIC"
  by (simp_all add: mixed_tags_def is_voltage_def VOLTAGE_FIXED_def VOLTAGE_FUN_def
      FLOATING_CONDUCTOR_def DIELECTRIC_def)

text \<open>
  Claim C1, on the code. The claim asks that an excitation tag outside 1..4 in the row range
  ends the call in a fatal condition. \<^verbatim>\<open>fill_matrix_3d\<close> does so (\<^verbatim>\<open>exit(1)\<close>), but
  \<^verbatim>\<open>fill_matrix_radial\<close> does not: on two panels with tags 7 and 1 and the full row range
  it returns, and entry 8 of the matrix, the first entry of the cross block of the panel with
  the unknown tag, is what it was before the call.
\<close>

theorem fill_matrix_unknown_tag:
  "(\<exists>m. fill_matrix_radial matrix line_points_p mixed_tags excitation_values 2 16 0 1 = Inr m \<and>
        m 8 = matrix 8) \<and>
   fill_matrix_3d matrix triangle_points_p mixed_tags excitation_values 2 2 0 1 = Inl Exit1"
proof
  have rng: "range_ok 2 0 1" by (simp add: range_ok_def)
  have rows: "row_range 0 1 = [0, 1]" by (simp add: row_range_def upt_rec)
  let ?m1 = "foldl (\<lambda>m i. radial_row line_points_p mixed_tags 2 16 i m) matrix (row_range 0 1)"
  obtain m where m: "fill_self_voltages ?m1 line_points_p 2 16 0 1 = Inr m"
    using fill_self_voltages_ok by blast
  then have run: "fill_matrix_radial matrix line_points_p mixed_tags excitation_values 2 16 0 1 = Inr m"
    using rng by (simp add: fill_matrix_radial_def N_QUAD_2D_def)
  have "m 8 = ?m1 8"
  proof (rule fill_self_voltages_frame[OF m])
    fix i l k :: nat assume "i \<in> set (row_range 0 1)" "l < 8" "k < 8"
    then have "i = 0 \<or> i = 1" and "k < 8" by (simp_all add: rows)
    then show "(N_QUAD_2D * i + l) * 16 + N_QUAD_2D * i + k \<noteq> 8"
      unfolding N_QUAD_2D_def by arith
  qed
  also have "?m1 8 = matrix 8"
    unfolding rows foldl.simps
  proof -
    have "radial_row line_points_p mixed_tags 2 16 1 m' 8 = m' 8" for m'
      by (rule radial_row_frame) (simp add: N_QUAD_2D_def)
    moreover have "radial_row line_points_p mixed_tags 2 16 0 m' = m'" for m'
      by (simp add: radial_row_def mixed_tags_0)
    ultimately show "radial_row line_points_p mixed_tags 2 16 1
       (radial_row line_points_p mixed_tags 2 16 0 matrix) 8 = matrix 8" by simp
  qed
  finally show "\<exists>m. fill_matrix_radial matrix line_points_p mixed_tags excitation_values 2 16 0 1 = Inr m \<and>
        m 8 = matrix 8" using run by blast
next
  show "fill_matrix_3d matrix triangle_points_p mixed_tags excitation_values 2 2 0 1 = Inl Exit1"
    by (rule fill_matrix_3d_unknown[of 2 0 1 0]) (simp_all add: range_ok_def mixed_tags_0)
qed


section \<open>Axial derivatives of the ring: properties\<close>

lemma ring_step_fin:
  assumes "R \<noteq> 0" "D ! n = Fin a" "D ! (n - 1) = Fin b"
  shows "ring_step (Fin d) (Fin R) D n =
         D[n + 1 := Fin (- (1 / R ^ 2) * ((2 * real n + 1) * d * a + (real n) ^ 2 * b))]"
  using assms by (simp del: dpow.simps add: dpow_numeral ring_step_def of_c_int_def)

lemma ring_prefix:
  assumes R: "R \<noteq> 0"
  shows "k < 8 \<Longrightarrow>
     length (foldl (ring_step (Fin d) (Fin R))
               ((replicate 9 (Fin 0))[0 := ddiv (Fin 1) (Fin R), 1 := ddiv (dneg (Fin d)) (dpow (Fin R) (Fin 3))])
               [1..<Suc k]) = 9 \<and>
     (\<forall>l \<le> Suc k. foldl (ring_step (Fin d) (Fin R))
               ((replicate 9 (Fin 0))[0 := ddiv (Fin 1) (Fin R), 1 := ddiv (dneg (Fin d)) (dpow (Fin R) (Fin 3))])
               [1..<Suc k] ! l = Fin (D_spec d R l))"
proof (induction k)
  case 0
  have D0: "(replicate 9 (Fin 0))[0 := ddiv (Fin 1) (Fin R), 1 := ddiv (dneg (Fin d)) (dpow (Fin R) (Fin 3))]
      = [Fin (D_spec d R 0), Fin (D_spec d R (Suc 0)), Fin 0, Fin 0, Fin 0, Fin 0, Fin 0, Fin 0, Fin 0]"
    using R by (simp del: dpow.simps add: dpow_numeral numeral_eq_Suc)
  show ?case
    unfolding D0 by (simp add: le_Suc_eq del: D_spec.simps)
next
  case (Suc k)
  define init where "init = (replicate 9 (Fin 0))[0 := ddiv (Fin 1) (Fin R),
      1 := ddiv (dneg (Fin d)) (dpow (Fin R) (Fin 3))]"
  define D where "D = foldl (ring_step (Fin d) (Fin R)) init [1..<Suc k]"
  from Suc have len: "length D = 9" and vals: "\<And>l. l \<le> Suc k \<Longrightarrow> D ! l = Fin (D_spec d R l)"
    unfolding D_def init_def by simp_all
  have e: "[1..<Suc (Suc k)] = [1..<Suc k] @ [Suc k]" by (rule upt_Suc_append) simp
  have step: "foldl (ring_step (Fin d) (Fin R)) init [1..<Suc (Suc k)] = ring_step (Fin d) (Fin R) D (Suc k)"
    unfolding e foldl_append D_def by (rule trans[OF foldl.simps(2)]) (rule foldl.simps(1))
  have v1: "D ! Suc k = Fin (D_spec d R (Suc k))" by (rule vals) simp
  have v0: "D ! (Suc k - 1) = Fin (D_spec d R k)" unfolding diff_Suc_1 by (rule vals) simp
  have rs: "ring_step (Fin d) (Fin R) D (Suc k) = D[Suc k + 1 := Fin (D_spec d R (Suc (Suc k)))]"
    unfolding ring_step_fin[OF R v1 v0] by simp
  have new: "D[Suc k + 1 := Fin (D_spec d R (Suc (Suc k)))] ! l = Fin (D_spec d R l)" if "l \<le> Suc (Suc k)" for l
  proof (cases "l = Suc (Suc k)")
    case True
    with Suc.prems len show ?thesis by (simp del: D_spec.simps)
  next
    case False
    with that have "l \<le> Suc k" by arith
    with vals False show ?thesis by (simp del: D_spec.simps)
  qed
  show ?case
    unfolding init_def[symmetric] step rs using len new by (simp del: D_spec.simps)
qed

lemma ring_D_fin:
  assumes "R \<noteq> 0" "l < 9"
  shows "ring_D (Fin d) (Fin R) ! l = Fin (D_spec d R l)"
proof -
  have "[1..<DERIV_2D_MAX - 1] = [1..<Suc 7]" by (simp add: DERIV_2D_MAX_def)
  with ring_prefix[OF assms(1), of 7 d] assms(2) show ?thesis
    unfolding ring_D_def by simp
qed


lemma axial_body_row:
  "l < 9 \<Longrightarrow> axial_body lines_p charges_p z i j k d (9 * i + l) =
     dadd (d (9 * i + l)) (ring_term lines_p charges_p z i j k l)"
  by (drule less9_cases) (auto simp: axial_body_def upt9)

lemma axial_body_other:
  "a < 9 * i \<or> 9 * i + 9 \<le> a \<Longrightarrow> axial_body lines_p charges_p z i j k d a = d a"
  by (auto simp: axial_body_def upt9)

lemma axial_k_row:
  "l < 9 \<Longrightarrow> foldl (\<lambda>d k. axial_body lines_p charges_p z i j k d) d ks (9 * i + l) =
     foldl (\<lambda>acc k. dadd acc (ring_term lines_p charges_p z i j k l)) (d (9 * i + l)) ks"
  by (induction ks arbitrary: d) (simp_all add: axial_body_row)

lemma axial_k_other:
  "a < 9 * i \<or> 9 * i + 9 \<le> a \<Longrightarrow> foldl (\<lambda>d k. axial_body lines_p charges_p z i j k d) d ks a = d a"
  by (induction ks arbitrary: d) (simp_all add: axial_body_other)

lemma axial_j_row:
  "l < 9 \<Longrightarrow>
   foldl (\<lambda>d j. foldl (\<lambda>d k. axial_body lines_p charges_p z i j k d) d ks) d js (9 * i + l) =
     foldl (\<lambda>acc j. foldl (\<lambda>acc k. dadd acc (ring_term lines_p charges_p z i j k l)) acc ks)
           (d (9 * i + l)) js"
  by (induction js arbitrary: d) (simp_all add: axial_k_row)

lemma axial_j_other:
  "a < 9 * i \<or> 9 * i + 9 \<le> a \<Longrightarrow>
   foldl (\<lambda>d j. foldl (\<lambda>d k. axial_body lines_p charges_p z i j k d) d ks) d js a = d a"
  by (induction js arbitrary: d) (simp_all add: axial_k_other)

lemma row_apart: "i' \<noteq> i \<Longrightarrow> l < 9 \<Longrightarrow> 9 * i + l < 9 * i' \<or> 9 * i' + 9 \<le> 9 * i + (l::nat)"
  by arith

lemma axial_i_row:
  "l < 9 \<Longrightarrow> distinct is \<Longrightarrow>
   foldl (\<lambda>d i. foldl (\<lambda>d j. foldl (\<lambda>d k. axial_body lines_p charges_p z i j k d) d ks) d js)
         d is (9 * i + l) =
     (if i \<in> set is
      then foldl (\<lambda>acc j. foldl (\<lambda>acc k. dadd acc (ring_term lines_p charges_p z i j k l)) acc ks)
             (d (9 * i + l)) js
      else d (9 * i + l))"
proof (induction "is" arbitrary: d)
  case Nil
  then show ?case by simp
next
  case (Cons x xs)
  show ?case
  proof (cases "x = i")
    case True
    with Cons.prems have "i \<notin> set xs" by simp
    with Cons True show ?thesis by (simp add: axial_j_row)
  next
    case False
    from row_apart[OF False Cons.prems(1)]
    have "foldl (\<lambda>d j. foldl (\<lambda>d k. axial_body lines_p charges_p z x j k d) d ks) d js (9 * i + l)
        = d (9 * i + l)"
      by (rule axial_j_other)
    with Cons False show ?thesis by simp
  qed
qed

lemma axial_i_other:
  "(\<forall>i\<in>set is. a < 9 * i \<or> 9 * i + 9 \<le> a) \<Longrightarrow>
   foldl (\<lambda>d i. foldl (\<lambda>d j. foldl (\<lambda>d k. axial_body lines_p charges_p z i j k d) d ks) d js)
         d is a = d a"
  by (induction "is" arbitrary: d) (simp_all add: axial_j_other)

lemma axial_accumulate:
  "i < N_z \<Longrightarrow> l < 9 \<Longrightarrow>
   axial_derivatives_radial_ring derivs_p lines_p charges_p N_lines z N_z (9 * i + l) =
     foldl (\<lambda>acc j. foldl (\<lambda>acc k. dadd acc (ring_term lines_p charges_p z i j k l)) acc [0..<N_QUAD_2D])
           (derivs_p (9 * i + l)) [0..<N_lines]"
  unfolding axial_derivatives_radial_ring_def by (simp add: axial_i_row)

lemma axial_frame:
  "9 * N_z \<le> a \<Longrightarrow>
   axial_derivatives_radial_ring derivs_p lines_p charges_p N_lines z N_z a = derivs_p a"
  unfolding axial_derivatives_radial_ring_def by (rule axial_i_other) auto

lemma ring_term_fin:
  assumes "sample lines_p j k 0 = Fin r" "dsub (z i) (sample lines_p j k 1) = Fin d"
    and "norm_2d (Fin d) (Fin r) = Fin R" "R \<noteq> 0"
    and "ddiv (dmul (GAUSS_QUAD_WEIGHTS ! k) (segment_length lines_p j)) (Fin 2) = Fin w"
    and "charges_p (N_QUAD_2D * j + k) = Fin q" "l < 9"
  shows "ring_term lines_p charges_p z i j k l = Fin (w * fin_val M_PI * r / 2 * q * D_spec d R l)"
  unfolding ring_term_def Let_def assms(1,2,3,5,6) ring_D_fin[OF assms(4,7)]
  by (simp add: M_PI_def dec_def)

text \<open>
  Claim C7. For finite \<open>z0 - z\<close> and \<open>R\<close> with \<open>R\<close> not zero, the nine values \<^verbatim>\<open>D[0..8]\<close> that
  \<^verbatim>\<open>axial_derivatives_radial_ring\<close> computes for a sample are those of the three-term
  recurrence \<open>D (n+1) = - (1/R^2) * ((2n+1) * (z0-z) * D n + n^2 * D (n-1))\<close> started at
  \<open>D 0 = 1/R\<close> and \<open>D 1 = - (z0-z) / R^3\<close>. The term added for target \<open>i\<close>, segment \<open>j\<close>, node
  \<open>k\<close> and order \<open>l\<close> is the quadrature weight \<open>GAUSS_QUAD_WEIGHTS[k] * length / 2\<close> times
  \<open>M_PI * r / 2\<close> times the nodal charge times \<open>D l\<close>. The call adds to \<^verbatim>\<open>derivs[i][l]\<close> the
  terms of every node of every segment, in the order of the loops, and writes nothing
  beyond the \<open>N_z\<close> rows.
\<close>

theorem axial_derivatives_radial_ring_recurrence:
  "(R \<noteq> 0 \<and> l < 9 \<longrightarrow> ring_D (Fin d) (Fin R) ! l = Fin (D_spec d R l)) \<and>
   (sample lines_p j k 0 = Fin r \<and> dsub (z i) (sample lines_p j k 1) = Fin d \<and>
    norm_2d (Fin d) (Fin r) = Fin R \<and> R \<noteq> 0 \<and>
    ddiv (dmul (GAUSS_QUAD_WEIGHTS ! k) (segment_length lines_p j)) (Fin 2) = Fin w \<and>
    charges_p (N_QUAD_2D * j + k) = Fin q \<and> l < 9 \<longrightarrow>
      ring_term lines_p charges_p z i j k l = Fin (w * fin_val M_PI * r / 2 * q * D_spec d R l)) \<and>
   (i < N_z \<and> l < 9 \<longrightarrow>
      axial_derivatives_radial_ring derivs_p lines_p charges_p N_lines z N_z (9 * i + l) =
        foldl (\<lambda>acc j. foldl (\<lambda>acc k. dadd acc (ring_term lines_p charges_p z i j k l)) acc
                          [0..<N_QUAD_2D])
              (derivs_p (9 * i + l)) [0..<N_lines]) \<and>
   (9 * N_z \<le> a \<longrightarrow>
      axial_derivatives_radial_ring derivs_p lines_p charges_p N_lines z N_z a = derivs_p a)"
  using ring_D_fin[of R l d] ring_term_fin[of lines_p j k r z i d R w charges_p q l]
    axial_accumulate[of i N_z l derivs_p lines_p charges_p N_lines z]
    axial_frame[of N_z a derivs_p lines_p charges_p N_lines z]
  by blast

text \<open>
  On the axis of a ring of radius 1 in the plane of the target (\<open>z0 - z = 0\<close>, \<open>R = 1\<close>) the
  derivatives of order 4 and 8 are 9 and 11025; with no segment the table is left as it was.
\<close>

theorem axial_derivatives_radial_ring_recurrence_witness:
  "ring_D (Fin 0) (Fin 1) ! 4 = Fin 9 \<and> ring_D (Fin 0) (Fin 1) ! 8 = Fin 11025 \<and>
   axial_derivatives_radial_ring (\<lambda>a. Fin 5) (\<lambda>a. Fin 0) (\<lambda>a. Fin 0) 0 (\<lambda>i. Fin 1) 1 (9 * 0 + 4) = Fin 5"
proof -
  have a: "ring_D (Fin 0) (Fin 1) ! l = Fin (D_spec 0 1 l)" if "l < 9" for l
    using axial_derivatives_radial_ring_recurrence[of 1 l 0] that by simp
  have b: "axial_derivatives_radial_ring (\<lambda>a. Fin 5) (\<lambda>a. Fin 0) (\<lambda>a. Fin 0) 0 (\<lambda>i. Fin 1) 1 (9 * 0 + 4)
      = Fin 5"
    using axial_derivatives_radial_ring_recurrence[of _ 4 _ "\<lambda>a. Fin 0" _ _ _ "\<lambda>i. Fin 1" 0 _ "\<lambda>a. Fin 0" _ 1
        "\<lambda>a. Fin 5" 0]
    by simp
  have "D_spec 0 1 4 = 9" "D_spec 0 1 8 = 11025"
    by (simp_all add: eval_nat_numeral)
  with a[of 4] a[of 8] b show ?thesis by simp
qed

section \<open>Quadrature tables: properties\<close>





























section \<open>Elliptic integrals: properties\<close>

subsection \<open>The approximant in closed form\<close>

text \<open>
  For \<open>eta = 1 - k > 0\<close> the loop of \<^verbatim>\<open>ellipk_singularity\<close> adds the eight terms
  \<open>(A\<^sub>i + log(1/eta) B\<^sub>i) eta\<^sup>i\<close>.
\<close>

lemma upt8: "[0..<8] = [0, 1, 2, 3, 4, 5, 6, 7]"
  by (simp add: upt_rec)

lemma ellipk_singularity_fin:
  assumes "0 < eta"
  shows "ellipk_singularity (Fin (1 - eta)) =
    Fin (\<Sum>i<8. (fin_val (ellipk_A ! i) + ln (1 / eta) * fin_val (ellipk_B ! i)) * eta ^ i)"
proof -
  have L: "dlog (ddiv (Fin 1) (Fin eta)) = Fin (ln (1 / eta))"
    using assms by simp
  have e: "dsub (Fin 1) (Fin (1 - eta)) = Fin eta"
    by (simp add: dsub_def)
  have p0: "dpow (Fin eta) (Fin 0) = Fin 1" by simp
  have p1: "dpow (Fin eta) (Fin 1) = Fin eta" using assms by (simp add: is_int_def)
  show ?thesis
    unfolding ellipk_singularity_def Let_def upt8
    apply (simp only: e L)
    apply (simp del: dpow.simps ln_divide_pos ln_div ln_inverse
        add: p0 p1 dpow_numeral of_c_int_def ellipk_A_def ellipk_B_def dec_def
          lessThan_nat_numeral lessThan_Suc)
    done
qed

subsection \<open>Bounds on two logarithms\<close>

text \<open>
  The exponential series cut after \<open>k\<close> terms is a lower bound of \<open>exp x\<close> for \<open>x \<ge> 0\<close>, and on
  \<open>[0, 1]\<close> the rest is at most twice the first omitted term. This gives \<open>ln 4\<close> from above and
  \<open>ln (7/5)\<close> from below to six digits.
\<close>

lemma exp_tail_summable: "summable (\<lambda>n. inverse (fact (n + k)) * x ^ (n + k) :: real)"
  by (rule summable_exp [THEN summable_ignore_initial_segment])

lemma exp_split:
  "exp x = (\<Sum>n<k. x ^ n / fact n) + (\<Sum>n. inverse (fact (n + k)) * x ^ (n + k))" for x :: real
  using exp_first_terms[of x k] by (simp add: divide_inverse mult.commute)

lemma exp_lower_partial:
  fixes x :: real
  assumes "0 \<le> x"
  shows "(\<Sum>n<k. x ^ n / fact n) \<le> exp x"
proof -
  have "0 \<le> (\<Sum>n. inverse (fact (n + k)) * x ^ (n + k))"
    using assms by (intro suminf_nonneg exp_tail_summable) simp
  then show ?thesis by (simp add: exp_split[of x k])
qed

lemma fact_pow2: "0 < k \<Longrightarrow> fact k * 2 ^ n \<le> (fact (n + k) :: nat)"
proof (induction n)
  case 0
  then show ?case by simp
next
  case (Suc n)
  then have "fact k * 2 ^ n \<le> (fact (n + k) :: nat)" by simp
  moreover from Suc.prems have "2 \<le> Suc (n + k)" by simp
  ultimately have "2 * (fact k * 2 ^ n) \<le> Suc (n + k) * fact (n + k)"
    by (rule mult_le_mono[rotated])
  then show ?case by (simp add: ac_simps)
qed

lemma exp_upper_partial:
  fixes x :: real
  assumes "0 \<le> x" "x \<le> 1" "0 < k"
  shows "exp x \<le> (\<Sum>n<k. x ^ n / fact n) + 2 * x ^ k / fact k"
proof -
  have g: "(\<lambda>n. x ^ k / fact k * (1 / 2) ^ n) sums (x ^ k / fact k * (1 / (1 - 1 / 2)))"
    by (intro sums_mult geometric_sums) simp
  have tm: "inverse (fact (n + k)) * x ^ (n + k) \<le> x ^ k / fact k * (1 / 2) ^ n" for n
  proof -
    from fact_pow2[OF assms(3), of n] have "real (fact k * 2 ^ n) \<le> real (fact (n + k))"
      by (simp only: of_nat_le_iff)
    then have "fact k * 2 ^ n \<le> (fact (n + k) :: real)"
      by (simp add: of_nat_fact)
    then have "inverse (fact (n + k)) \<le> inverse (fact k * 2 ^ n :: real)"
      by (rule le_imp_inverse_le) simp
    moreover have "x ^ (n + k) \<le> x ^ k"
      using assms(1,2) by (simp add: power_add mult_left_le_one_le power_le_one)
    moreover have "0 \<le> inverse (fact k * 2 ^ n :: real)" by simp
    moreover have "0 \<le> x ^ (n + k)" using assms(1) by simp
    ultimately have "inverse (fact (n + k)) * x ^ (n + k) \<le> inverse (fact k * 2 ^ n) * x ^ k"
      by (rule mult_mono)
    also have "\<dots> = x ^ k / fact k * (1 / 2) ^ n"
      by (simp add: power_one_over field_simps)
    finally show ?thesis .
  qed
  have "(\<Sum>n. inverse (fact (n + k)) * x ^ (n + k)) \<le> (\<Sum>n. x ^ k / fact k * (1 / 2) ^ n)"
    by (intro suminf_le tm exp_tail_summable sums_summable[OF g])
  also have "\<dots> = x ^ k / fact k * (1 / (1 - 1 / 2))"
    by (rule sums_unique[symmetric, OF g])
  finally show ?thesis by (simp add: exp_split[of x k] mult.commute)
qed

lemma ln4_upper: "ln (4::real) \<le> 1386295 / 1000000"
proof -
  have "(4::real) \<le> (\<Sum>n<14. (1386295 / 1000000) ^ n / fact n)"
    by (simp add: lessThan_nat_numeral lessThan_Suc fact_numeral power_divide)
  also have "\<dots> \<le> exp (1386295 / 1000000)"
    by (rule exp_lower_partial) simp
  finally have "exp (ln 4) \<le> exp (1386295 / 1000000 :: real)" by simp
  then show ?thesis by (simp only: exp_le_cancel_iff)
qed

lemma ln75_lower: "336472 / 1000000 \<le> ln (7 / 5 :: real)"
proof -
  have "exp (336472 / 1000000 :: real) \<le> (\<Sum>n<8. (336472 / 1000000) ^ n / fact n)
       + 2 * (336472 / 1000000) ^ 8 / fact 8"
    by (rule exp_upper_partial) simp_all
  also have "\<dots> \<le> 7 / 5"
    by (simp add: lessThan_nat_numeral lessThan_Suc fact_numeral power_divide)
  finally have "exp (336472 / 1000000) \<le> exp (ln (7 / 5 :: real))" by simp
  then show ?thesis by (simp only: exp_le_cancel_iff)
qed

subsection \<open>The two branches\<close>

text \<open>
  At \<open>m = -24/25\<close> one has \<open>1 - m = (7/5)\<^sup>2\<close>, so both the approximant at \<open>m\<close> and the
  Landen-mapped value are rational combinations of \<open>ln 4\<close> and \<open>ln (7/5)\<close>.
\<close>

lemma sqrt_49_25: "sqrt (49 / 25) = 7 / 5"
  by (rule real_sqrt_unique) (simp_all add: power2_eq_square)

lemma ln_49_25: "ln (49 / 25 :: real) = 2 * ln (7 / 5)"
proof -
  have "ln ((7 / 5) ^ 2 :: real) = 2 * ln (7 / 5)"
    by (simp add: ln_realpow)
  moreover have "((7 / 5) ^ 2 :: real) = 49 / 25"
    by (simp add: power2_eq_square)
  ultimately show ?thesis by simp
qed

lemma ln_25_49: "ln (25 / 49 :: real) = - 2 * ln (7 / 5)"
proof -
  have "ln (inverse (49 / 25) :: real) = - ln (49 / 25)"
    by (rule ln_inverse)
  then show ?thesis by (simp add: ln_49_25)
qed

lemma ellipk_direct_value:
  "ellipk (Fin (- 24 / 25)) =
     Fin (\<Sum>i<8. (fin_val (ellipk_A ! i) - 2 * ln (7 / 5) * fin_val (ellipk_B ! i)) * (49 / 25) ^ i)"
proof -
  have "ellipk (Fin (- 24 / 25)) = ellipk_singularity (Fin (1 - 49 / 25))"
    by (simp add: ellipk_def of_c_int_def)
  also have "\<dots> = Fin (\<Sum>i<8. (fin_val (ellipk_A ! i) + ln (1 / (49 / 25)) * fin_val (ellipk_B ! i)) * (49 / 25) ^ i)"
    by (rule ellipk_singularity_fin) simp
  also have "ln (1 / (49 / 25) :: real) = - 2 * ln (7 / 5)"
    using ln_25_49 by simp
  finally show ?thesis by simp
qed

lemma landen_value:
  "landen (Fin (- 24 / 25)) =
     Fin ((\<Sum>i<8. (fin_val (ellipk_A ! i) + 2 * ln (7 / 5) * fin_val (ellipk_B ! i)) * (25 / 49) ^ i) / (7 / 5))"
proof -
  have "landen (Fin (- 24 / 25)) = ddiv (ellipk_singularity (Fin (1 - 25 / 49))) (Fin (7 / 5))"
    by (simp add: landen_def dsub_def sqrt_49_25)
  also have "ellipk_singularity (Fin (1 - 25 / 49)) =
      Fin (\<Sum>i<8. (fin_val (ellipk_A ! i) + ln (1 / (25 / 49)) * fin_val (ellipk_B ! i)) * (25 / 49) ^ i)"
    by (rule ellipk_singularity_fin) simp
  also have "ln (1 / (25 / 49) :: real) = 2 * ln (7 / 5)"
    using ln_49_25 by simp
  finally show ?thesis by simp
qed

lemma ellipk_gap:
  "(\<Sum>i<8. (fin_val (ellipk_A ! i) - 2 * ln (7 / 5) * fin_val (ellipk_B ! i)) * (49 / 25) ^ i)
   + 4 / 10 ^ 6
   < (\<Sum>i<8. (fin_val (ellipk_A ! i) + 2 * ln (7 / 5) * fin_val (ellipk_B ! i)) * (25 / 49) ^ i) / (7 / 5)"
proof -
  define x :: real where "x = ln 4"
  define y :: real where "y = ln (7 / 5)"
  have x: "x \<le> 1386295 / 1000000" unfolding x_def by (rule ln4_upper)
  have y: "336472 / 1000000 \<le> y" unfolding y_def by (rule ln75_lower)
  show ?thesis
    unfolding y_def[symmetric]
    using x y
    apply (simp add: lessThan_nat_numeral lessThan_Suc ellipk_A_def ellipk_B_def dec_def
        x_def[symmetric] power_divide)
    apply argo
    done
qed

lemma ellipk_guard:
  "ellipk k = (if dlt (Fin (- 1)) k then ellipk_singularity k else landen k)"
  by (simp add: ellipk_def landen_def of_c_int_def)

text \<open>
  Claim C4. At \<open>m = -0.96\<close>, which is negative, \<^verbatim>\<open>ellipk\<close> does not return the Landen-mapped
  value \<^verbatim>\<open>ellipk_singularity(1 - 1/(1-m)) / sqrt(1-m)\<close>: the guard \<^verbatim>\<open>k > -1\<close> holds, the
  approximant is evaluated at \<open>m\<close> itself, outside \<open>[0, 1]\<close>, and the result is below the
  Landen-mapped value by more than \<open>4e-6\<close>. \<^verbatim>\<open>ellipe\<close> at the same argument does map it into
  \<open>[0, 1]\<close>: it returns \<^verbatim>\<open>ellipe_01(24/49) * 1.4\<close>.
\<close>

theorem ellipk_negative_argument:
  "ellipk (Fin (- 24 / 25)) = ellipk_singularity (Fin (- 24 / 25)) \<and>
   (\<exists>a b. ellipk (Fin (- 24 / 25)) = Fin a \<and> landen (Fin (- 24 / 25)) = Fin b \<and>
      a + 4 / 10 ^ 6 < b) \<and>
   ellipe (Fin (- 24 / 25)) = dmul (ellipe_01 (Fin (24 / 49))) (Fin (7 / 5))"
proof -
  have "ellipk (Fin (- 24 / 25)) = ellipk_singularity (Fin (- 24 / 25))"
    by (simp add: ellipk_guard)
  moreover have "\<exists>a b. ellipk (Fin (- 24 / 25)) = Fin a \<and> landen (Fin (- 24 / 25)) = Fin b \<and>
      a + 4 / 10 ^ 6 < b"
    using ellipk_gap ellipk_direct_value landen_value by blast
  moreover have "ellipe (Fin (- 24 / 25)) = dmul (ellipe_01 (Fin (24 / 49))) (Fin (7 / 5))"
    by (simp add: ellipe_def dsub_def sqrt_49_25)
  ultimately show ?thesis by (intro conjI)
qed

end
